theory Spec2Isabelle
  imports Main "HOL-Library.Word"
begin

section \<open>Value formatters (package firehose, printer)\<close>

text \<open>
  Bytes are 8-bit words, a Go byte slice is a list of them, a Go string is a \<open>string\<close>.
  A \<open>*big.Int\<close> is an \<open>int option\<close>: \<open>None\<close> is the nil pointer.
\<close>

type_synonym byte = "8 word"

text \<open>
  \<open>encoding/hex\<close> of the Go standard library: two lowercase digits per byte, the high
  nibble first; decoding accepts both cases and refuses an odd length or a foreign
  character.
\<close>

definition hextable :: string where
  "hextable = ''0123456789abcdef''"

definition EncodeToString :: "byte list \<Rightarrow> string" where
  "EncodeToString src =
     concat (map (\<lambda>v. [hextable ! (unat v div 16), hextable ! (unat v mod 16)]) src)"

definition fromHexChar :: "char \<Rightarrow> nat option" where
  "fromHexChar c =
     (let n = of_char c :: nat in
      if 48 \<le> n \<and> n \<le> 57 then Some (n - 48)
      else if 97 \<le> n \<and> n \<le> 102 then Some (n - 97 + 10)
      else if 65 \<le> n \<and> n \<le> 70 then Some (n - 65 + 10)
      else None)"

fun DecodeString :: "string \<Rightarrow> byte list option" where
  "DecodeString [] = Some []"
| "DecodeString [c] = None"
| "DecodeString (a # b # rest) =
     (case (fromHexChar a, fromHexChar b) of
        (Some x, Some y) \<Rightarrow> map_option ((#) (of_nat (x * 16 + y))) (DecodeString rest)
      | _ \<Rightarrow> None)"

text \<open>
  \<open>big.Int.Bytes\<close>: the absolute value as a big-endian byte slice without leading
  zero bytes; the slice of zero is empty. \<open>be_value\<close> reads such a slice back.
\<close>

function nat_bytes :: "nat \<Rightarrow> byte list" where
  "nat_bytes n = (if n = 0 then [] else nat_bytes (n div 256) @ [of_nat (n mod 256)])"
  by pat_completeness auto
termination
  by (relation "measure id") auto

declare nat_bytes.simps [simp del]

definition Bytes :: "int \<Rightarrow> byte list" where
  "Bytes x = nat_bytes (nat \<bar>x\<bar>)"

definition be_value :: "byte list \<Rightarrow> nat" where
  "be_value bs = foldl (\<lambda>acc b. acc * 256 + unat b) 0 bs"

text \<open>
  \<open>Hex\<close> and \<open>BigInt\<close> as the current printer has them:
  \<^verbatim>\<open>
  func Hex(in []byte) string {
      if len(in) == 0 { return "." }
      return hex.EncodeToString(in)
  }
  func BigInt(in *big.Int) string {
      if in == nil { return "." }
      return Hex(in.Bytes())
  }
  \<close>
  The older printer has no nil check in \<open>BigInt\<close>: there \<open>in.Bytes()\<close> dereferences
  the nil pointer and the call panics (\<open>BigInt_legacy\<close>).
\<close>

definition Hex :: "byte list \<Rightarrow> string" where
  "Hex in' = (if length in' = 0 then ''.'' else EncodeToString in')"

definition BigInt :: "int option \<Rightarrow> string" where
  "BigInt in' = (case in' of None \<Rightarrow> ''.'' | Some x \<Rightarrow> Hex (Bytes x))"

datatype panic =
    NilPointerDereference
  | SliceBoundsOutOfRange
  | TypeAssertionFailed
  | PanicMessage string

definition BigInt_legacy :: "int option \<Rightarrow> panic + string" where
  "BigInt_legacy in' =
     (case in' of None \<Rightarrow> Inl NilPointerDereference | Some x \<Rightarrow> Inr (Hex (Bytes x)))"

section \<open>The call-index stack (package firehose, ExtendedStack)\<close>

text \<open>
  \<open>ExtendedStack\<close> embeds the stack of \<open>golang-collections\<close>, a linked list of
  \<open>interface{}\<close> values whose \<open>Pop\<close> and \<open>Peek\<close> return nil on an empty stack.
  An interface value is nil, a string, or a value of another dynamic type. The head of
  the list is the top of the stack.
  \<^verbatim>\<open>
  func (s *ExtendedStack) MustPop() string {
      popped := s.Pop()
      if popped == nil {
          panic("at least one element must exist in the index stack at this point")
      }
      return popped.(string)
  }
  \<close>
\<close>

datatype iface = INil | IString string | IOther

type_synonym ExtendedStack = "iface list"

definition Pop :: "ExtendedStack \<Rightarrow> iface \<times> ExtendedStack" where
  "Pop s = (case s of [] \<Rightarrow> (INil, []) | x # rest \<Rightarrow> (x, rest))"

definition Peek :: "ExtendedStack \<Rightarrow> iface" where
  "Peek s = (case s of [] \<Rightarrow> INil | x # rest \<Rightarrow> x)"

definition must_exist :: string where
  "must_exist = ''at least one element must exist in the index stack at this point''"

text \<open>The type assertion \<open>x.(string)\<close>, after the nil check.\<close>

definition assert_string :: "iface \<Rightarrow> panic + string" where
  "assert_string x =
     (case x of
        INil \<Rightarrow> Inl (PanicMessage must_exist)
      | IString v \<Rightarrow> Inr v
      | IOther \<Rightarrow> Inl TypeAssertionFailed)"

definition MustPop :: "ExtendedStack \<Rightarrow> (panic + string) \<times> ExtendedStack" where
  "MustPop s = (let (popped, s') = Pop s in (assert_string popped, s'))"

definition MustPeek :: "ExtendedStack \<Rightarrow> panic + string" where
  "MustPeek s = assert_string (Peek s)"

definition holds_strings :: "ExtendedStack \<Rightarrow> bool" where
  "holds_strings s = list_all (\<lambda>x. case x of IString v \<Rightarrow> True | _ \<Rightarrow> False) s"

definition top_is_string :: "ExtendedStack \<Rightarrow> bool" where
  "top_is_string s = (case s of IString v # rest \<Rightarrow> True | _ \<Rightarrow> False)"

definition panics :: "panic + 'a \<Rightarrow> bool" where
  "panics r = (case r of Inl p \<Rightarrow> True | Inr v \<Rightarrow> False)"

section \<open>The printer's reliable write (package firehose, printer)\<close>

text \<open>
  A Go \<open>error\<close> is \<open>None\<close> for nil and \<open>Some m\<close> for an error whose \<open>Error()\<close>
  text is \<open>m\<close>. An \<open>io.Writer\<close> is a state with a write function returning the
  count it reports, its error and the next state. The world of the printer holds the
  writer, the log of every \<open>Write\<close> call made on it (argument, reported count, error)
  and the log of every \<open>os.WriteFile\<close> call (path, content).
\<close>

type_synonym error = "string option"

type_synonym 'w writer = "'w \<Rightarrow> string \<Rightarrow> (int \<times> error) \<times> 'w"

record 'w world =
  sink :: 'w
  sink_writes :: "(string \<times> int \<times> error) list"
  file_writes :: "(string \<times> string) list"

text \<open>\<open>strconv.FormatUint(n, 10)\<close>, also the \<open>%d\<close> of a non-negative integer.\<close>

definition digit :: "nat \<Rightarrow> char" where
  "digit n = ''0123456789'' ! n"

function FormatUint :: "nat \<Rightarrow> string" where
  "FormatUint n = (if n < 10 then [digit n] else FormatUint (n div 10) @ [digit (n mod 10)])"
  by pat_completeness auto
termination
  by (relation "measure id") auto

declare FormatUint.simps [simp del]

text \<open>The \<open>%s\<close> of an error value: the nil error prints as \<open>%!s(<nil>)\<close>.\<close>

definition format_error :: "error \<Rightarrow> string" where
  "format_error err = (case err of None \<Rightarrow> ''%!s(<nil>)'' | Some m \<Rightarrow> m)"

definition errstr :: "nat \<Rightarrow> error \<Rightarrow> string" where
  "errstr loops err =
     [CHR 0x0A] @ ''FIREHOSE FAILED WRITING '' @ FormatUint loops @ ''x: '' @ format_error err
       @ [CHR 0x0A]"

definition fallback_path :: string where
  "fallback_path = ''/tmp/firehose_writer_failed_print.log''"

text \<open>
  The retry loop of \<open>flushToFirehose\<close> (the older \<open>Print\<close> has the same loop inline,
  on the line as a string):
  \<^verbatim>\<open>
  loops := 10
  for i := 0; i < loops; i++ {
      written, err = writer.Write(in)
      if len(in) == written { return }
      in = in[written:]
      if i == loops-1 { break }
  }
  errstr := fmt.Sprintf("\nFIREHOSE FAILED WRITING %dx: %s\n", loops, err)
  os.WriteFile("/tmp/firehose_writer_failed_print.log", []byte(errstr), 0644)
  fmt.Fprint(writer, errstr)
  \<close>
  The slice expression \<open>in[written:]\<close> panics when \<open>written\<close> is negative or beyond
  the length of \<open>in\<close>.
\<close>

datatype 'w attempts =
    Completed "'w world"
  | Exhausted error "'w world"
  | Panicked panic "'w world"

function retry :: "'w writer \<Rightarrow> nat \<Rightarrow> nat \<Rightarrow> string \<Rightarrow> error \<Rightarrow> 'w world \<Rightarrow> 'w attempts" where
  "retry wr loops i in' err w =
     (if i < loops then
        (let written = fst (fst (wr (sink w) in'));
             err' = snd (fst (wr (sink w) in'));
             w' = w\<lparr>sink := snd (wr (sink w) in'),
                     sink_writes := sink_writes w @ [(in', written, err')]\<rparr>
         in if int (length in') = written then Completed w'
            else if written < 0 \<or> int (length in') < written
              then Panicked SliceBoundsOutOfRange w'
            else if i = loops - 1 then Exhausted err' w'
            else retry wr loops (i + 1) (drop (nat written) in') err' w')
      else Exhausted err w)"
  by pat_completeness auto
termination
  by (relation "measure (\<lambda>(wr, loops, i, in', err, w). loops - i)") auto

declare retry.simps [simp del]

definition flushToFirehose :: "'w writer \<Rightarrow> string \<Rightarrow> 'w world \<Rightarrow> panic option \<times> 'w world" where
  "flushToFirehose wr in' w =
     (case retry wr 10 0 in' None w of
        Completed w' \<Rightarrow> (None, w')
      | Panicked p w' \<Rightarrow> (Some p, w')
      | Exhausted err w' \<Rightarrow>
          (let msg = errstr 10 err;
               w1 = w'\<lparr>file_writes := file_writes w' @ [(fallback_path, msg)]\<rparr>;
               r = wr (sink w1) msg
           in (None, w1\<lparr>sink := snd r,
                         sink_writes := sink_writes w1 @ [(msg, fst (fst r), snd (fst r))]\<rparr>)))"

text \<open>\<open>strings.Join\<close>, and the two entry points of \<open>DelegateToWriterPrinter\<close>.\<close>

fun Join :: "string list \<Rightarrow> string \<Rightarrow> string" where
  "Join [] sep = []"
| "Join [x] sep = x"
| "Join (x # y # rest) sep = x @ sep @ Join (y # rest) sep"

definition Write :: "'w writer \<Rightarrow> string \<Rightarrow> 'w world \<Rightarrow> panic option \<times> 'w world" where
  "Write wr in' w = flushToFirehose wr in' w"

definition firehose_line :: "string list \<Rightarrow> string" where
  "firehose_line input = ''FIRE '' @ Join input '' '' @ [CHR 0x0A]"

definition Print :: "'w writer \<Rightarrow> string list \<Rightarrow> 'w world \<Rightarrow> panic option \<times> 'w world" where
  "Print wr input w = flushToFirehose wr (firehose_line input) w"

text \<open>
  What a log of write attempts says: the bytes the sink accepted, whether each
  attempt was handed the remainder the one before left, and whether an attempt was
  short.
\<close>

definition delivered :: "(string \<times> int \<times> error) list \<Rightarrow> string" where
  "delivered log = concat (map (\<lambda>(a, n, e). take (nat n) a) log)"

fun chained :: "string \<Rightarrow> (string \<times> int \<times> error) list \<Rightarrow> bool" where
  "chained in' [] = True"
| "chained in' ((a, n, e) # rest) = (a = in' \<and> chained (drop (nat n) in') rest)"

definition short_write :: "string \<times> int \<times> error \<Rightarrow> bool" where
  "short_write c = (case c of (a, n, e) \<Rightarrow> int (length a) \<noteq> n)"

definition obeys_contract :: "'w writer \<Rightarrow> bool" where
  "obeys_contract wr =
     (\<forall>s x. 0 \<le> fst (fst (wr s x)) \<and> fst (fst (wr s x)) \<le> int (length x))"

text \<open>What the retry loop guarantees for a writer that obeys the contract, from call
  number \<open>i\<close> on: the attempts it adds to the log, and no panic.\<close>

definition retry_post ::
  "nat \<Rightarrow> nat \<Rightarrow> string \<Rightarrow> error \<Rightarrow> 'w world \<Rightarrow> 'w attempts \<Rightarrow> bool" where
  "retry_post loops i in' err w r =
     (case r of
        Completed w' \<Rightarrow>
          (\<exists>att. sink_writes w' = sink_writes w @ att \<and> att \<noteq> [] \<and> length att \<le> loops - i
             \<and> chained in' att \<and> list_all short_write (butlast att)
             \<and> \<not> short_write (last att) \<and> delivered att = in'
             \<and> file_writes w' = file_writes w)
      | Exhausted e w' \<Rightarrow>
          (if i < loops
           then (\<exists>att. sink_writes w' = sink_writes w @ att \<and> length att = loops - i
                  \<and> chained in' att \<and> list_all short_write att
                  \<and> e = snd (snd (last att)) \<and> file_writes w' = file_writes w)
           else e = err \<and> w' = w)
      | Panicked p w' \<Rightarrow> False)"

definition fresh :: "'w \<Rightarrow> 'w world" where
  "fresh s = \<lparr>sink = s, sink_writes = [], file_writes = []\<rparr>"

text \<open>Two sinks to run the printer on: one that accepts nothing before its tenth
  call and everything from then on, and one that never accepts anything.\<close>

definition tenth_time_lucky :: "nat writer" where
  "tenth_time_lucky k x =
     (if k < 9 then ((0, Some ''busy''), Suc k) else ((int (length x), None), Suc k))"

definition closed_pipe :: "nat writer" where
  "closed_pipe k x = ((0, Some ''closed pipe''), Suc k)"

section \<open>The genesis header comparison report (package firehose, printer)\<close>

text \<open>
  The fields of \<open>types.Header\<close> that the report reads. Hashes, addresses, the bloom
  filter and the block nonce are byte arrays; \<open>Difficulty\<close> and \<open>Number\<close> are
  \<open>*big.Int\<close> and may be nil; the gas fields and the time are \<open>uint64\<close>.
\<close>

type_synonym hash = "byte list"
type_synonym address = "byte list"

record Header =
  ParentHash :: hash
  UncleHash :: hash
  Coinbase :: address
  Root :: hash
  TxHash :: hash
  ReceiptHash :: hash
  Bloom :: "byte list"
  Difficulty :: "int option"
  Number :: "int option"
  GasLimit :: "64 word"
  GasUsed :: "64 word"
  Time :: "64 word"
  Extra :: "byte list"
  MixDigest :: hash
  Nonce :: "byte list"

text \<open>
  \<open>Header.Hash\<close>, \<open>common.Hash.String\<close> and \<open>common.Address.String\<close> live in packages
  that this development does not cover: the report takes them as parameters.
\<close>

record common_pkg =
  HeaderHash :: "Header \<Rightarrow> hash"
  HashString :: "hash \<Rightarrow> string"
  AddressString :: "address \<Rightarrow> string"

text \<open>
  \<open>big.Int.String\<close> (decimal, with a sign), \<open>big.Int.Uint64\<close> (the low 64 bits of
  the absolute value; a nil receiver panics) and \<open>BlockNonce.Uint64\<close> (big-endian).
\<close>

definition BigString :: "int \<Rightarrow> string" where
  "BigString x = (if x < 0 then ''-'' @ FormatUint (nat (- x)) else FormatUint (nat x))"

definition BigUint64 :: "int \<Rightarrow> 64 word" where
  "BigUint64 x = of_nat (nat \<bar>x\<bar>)"

definition NonceUint64 :: "byte list \<Rightarrow> 64 word" where
  "NonceUint64 n = of_nat (be_value n)"

definition dec_value :: "string \<Rightarrow> nat" where
  "dec_value s = foldl (\<lambda>acc c. acc * 10 + (of_char c - 48)) 0 s"

text \<open>
  Every \<open>ReportToUser(format, args...)\<close> call is recorded as its format and its
  arguments, in order. The closure \<open>fieldComparisonReporter\<close> returns:
  \<^verbatim>\<open>
  resolvedActual := toString(actual)
  resolvedExpected := toString(expected)
  sign := "!="
  if resolvedActual == resolvedExpected { sign = "==" }
  ReportToUser("%s [(actual) %s %s %s (expected)]", field, resolvedActual, sign, resolvedExpected)
  \<close>
\<close>

type_synonym user_report = "(string \<times> string list) list"

definition fieldComparisonReporter ::
  "('a \<Rightarrow> string) \<Rightarrow> string \<Rightarrow> 'a \<Rightarrow> 'a \<Rightarrow> string \<times> string list" where
  "fieldComparisonReporter toString field actual expected =
     (let resolvedActual = toString actual;
          resolvedExpected = toString expected;
          sign = (if resolvedActual = resolvedExpected then ''=='' else ''!='')
      in (''%s [(actual) %s %s %s (expected)]'',
          [field, resolvedActual, sign, resolvedExpected]))"

definition compareAddress :: "common_pkg \<Rightarrow> string \<Rightarrow> address \<Rightarrow> address \<Rightarrow> string \<times> string list" where
  "compareAddress c = fieldComparisonReporter (AddressString c)"

definition compareHash :: "common_pkg \<Rightarrow> string \<Rightarrow> hash \<Rightarrow> hash \<Rightarrow> string \<times> string list" where
  "compareHash c = fieldComparisonReporter (HashString c)"

definition compareUint64 :: "string \<Rightarrow> 64 word \<Rightarrow> 64 word \<Rightarrow> string \<times> string list" where
  "compareUint64 = fieldComparisonReporter (\<lambda>x. FormatUint (unat x))"

definition compareBytes :: "string \<Rightarrow> byte list \<Rightarrow> byte list \<Rightarrow> string \<times> string list" where
  "compareBytes = fieldComparisonReporter EncodeToString"

definition compareBigInt :: "string \<Rightarrow> int option \<Rightarrow> int option \<Rightarrow> string \<times> string list" where
  "compareBigInt =
     fieldComparisonReporter (\<lambda>x. case x of None \<Rightarrow> ''<nil>'' | Some v \<Rightarrow> BigString v)"

definition report_preamble :: user_report where
  "report_preamble =
     [(''There is a mismatch between Firehose genesis block and actual chain's stored genesis block, the actual genesis'', []),
      (''block's hash field extracted from Geth's database does not fit with hash of genesis block generated'', []),
      (''from Firehose determined genesis config, you might need to provide the correct 'genesis.json' file'', []),
      (''via --firehose-genesis-file'', []),
      ('''', []),
      (''Comparison of the actual Firehose recomputed genesis block <> expected Geth genesis block'', [])]"

text \<open>
  The report: the preamble, the \<open>Hash\<close> line, then \<open>Number\<close>, whose arguments
  \<open>actual.Number.Uint64()\<close> and \<open>expected.Number.Uint64()\<close> panic on a nil
  \<open>Number\<close> (the lines printed so far stay printed), then the other fourteen fields
  and an empty line.
\<close>

definition ReportHeaderComparisonResult ::
  "common_pkg \<Rightarrow> Header \<Rightarrow> Header \<Rightarrow> user_report \<times> panic option" where
  "ReportHeaderComparisonResult c actual expected =
     (let printed = report_preamble
            @ [compareHash c ''Hash'' (HeaderHash c actual) (HeaderHash c expected)]
      in case (Number actual, Number expected) of
           (Some an, Some en) \<Rightarrow>
             (printed @
              [compareUint64 ''Number'' (BigUint64 an) (BigUint64 en),
               compareHash c ''ParentHash'' (ParentHash actual) (ParentHash expected),
               compareHash c ''UncleHash'' (UncleHash actual) (UncleHash expected),
               compareAddress c ''Coinbase'' (Coinbase actual) (Coinbase expected),
               compareHash c ''Root'' (Root actual) (Root expected),
               compareHash c ''TxHash'' (TxHash actual) (TxHash expected),
               compareHash c ''ReceiptHash'' (ReceiptHash actual) (ReceiptHash expected),
               compareBytes ''Bloom'' (Bloom actual) (Bloom expected),
               compareBigInt ''Difficulty'' (Difficulty actual) (Difficulty expected),
               compareUint64 ''GasLimit'' (GasLimit actual) (GasLimit expected),
               compareUint64 ''GasUsed'' (GasUsed actual) (GasUsed expected),
               compareUint64 ''Time'' (Time actual) (Time expected),
               compareBytes ''Extra'' (Extra actual) (Extra expected),
               compareHash c ''MixDigest'' (MixDigest actual) (MixDigest expected),
               compareUint64 ''Nonce'' (NonceUint64 (Nonce actual)) (NonceUint64 (Nonce expected)),
               ('''', [])],
              None)
         | _ \<Rightarrow> (printed, Some NilPointerDereference))"

text \<open>The marker of the \<open>Hash\<close> line, and the fields whose comparison line carries a
  given marker.\<close>

definition hash_sign :: "common_pkg \<Rightarrow> Header \<Rightarrow> Header \<Rightarrow> string" where
  "hash_sign c a e =
     (if HashString c (HeaderHash c a) = HashString c (HeaderHash c e) then ''=='' else ''!='')"

definition fields_marked :: "string \<Rightarrow> user_report \<Rightarrow> string list" where
  "fields_marked sign r =
     map (\<lambda>(fmt, args). args ! 0)
       (filter (\<lambda>(fmt, args). length args = 4 \<and> args ! 2 = sign) r)"

text \<open>
  A header to run the report on, and stand-ins for the three functions of the other
  packages: hex with a \<open>0x\<close> prefix for hashes and addresses, and for the header hash
  the header's fields one after the other, which (like Keccak-256 over the RLP
  encoding, short of a collision) tells two headers with different \<open>gasUsed\<close> apart.
\<close>

definition field_digest :: "Header \<Rightarrow> hash" where
  "field_digest h =
     ParentHash h @ UncleHash h @ Coinbase h @ Root h @ TxHash h @ ReceiptHash h
       @ nat_bytes (unat (GasLimit h)) @ [0] @ nat_bytes (unat (GasUsed h)) @ [0]
       @ nat_bytes (unat (Time h)) @ [0] @ Extra h @ MixDigest h @ Nonce h"

definition reference_pkg :: common_pkg where
  "reference_pkg =
     \<lparr>HeaderHash = field_digest,
      HashString = (\<lambda>h. ''0x'' @ EncodeToString h),
      AddressString = (\<lambda>a. ''0x'' @ EncodeToString a)\<rparr>"

definition genesis_header :: Header where
  "genesis_header =
     \<lparr>ParentHash = [0, 0], UncleHash = [29, 204], Coinbase = [0], Root = [215, 248],
      TxHash = [86, 232], ReceiptHash = [86, 232], Bloom = [0, 0, 0, 0],
      Difficulty = Some 1024, Number = Some 0, GasLimit = 5000, GasUsed = 0,
      Time = 0, Extra = [17, 187], MixDigest = [0, 0], Nonce = [0, 0, 0, 0, 0, 0, 0, 66]\<rparr>"

section \<open>The buffer printer (package firehose, printer)\<close>

text \<open>
  \<open>ToBufferPrinter\<close> accumulates lines in a \<open>bytes.Buffer\<close>;
  \<open>NewToBufferPrinterWithBuffer\<close> resets the buffer it is given before wrapping it:
  \<^verbatim>\<open>
  func NewToBufferPrinterWithBuffer(buffer *bytes.Buffer) *ToBufferPrinter {
      // Force a reset to ensure we start with a clean buffer
      buffer.Reset()
      return &ToBufferPrinter{buffer: buffer}
  }
  \<close>
\<close>

record ToBufferPrinter =
  buffer :: string

definition NewToBufferPrinterWithBuffer :: "string \<Rightarrow> ToBufferPrinter" where
  "NewToBufferPrinterWithBuffer buf = \<lparr>buffer = []\<rparr>"

definition ToBufferPrinter_Reset :: "ToBufferPrinter \<Rightarrow> ToBufferPrinter" where
  "ToBufferPrinter_Reset p = p\<lparr>buffer := []\<rparr>"

definition ToBufferPrinter_Write :: "ToBufferPrinter \<Rightarrow> string \<Rightarrow> ToBufferPrinter" where
  "ToBufferPrinter_Write p in' = p\<lparr>buffer := buffer p @ in'\<rparr>"

definition ToBufferPrinter_Print :: "ToBufferPrinter \<Rightarrow> string list \<Rightarrow> ToBufferPrinter" where
  "ToBufferPrinter_Print p input = p\<lparr>buffer := buffer p @ firehose_line input\<rparr>"

section \<open>Block processing (package core, StateProcessor.Process)\<close>

text \<open>
  \<open>Process\<close> works with up to three trace contexts: the one it is handed
  (\<open>firehoseContext\<close>, the canonical context of the block), the speculative context it
  builds over \<open>firehose.TxSyncBuffer\<close> for the transactions, and
  \<open>firehose.SyncContext()\<close>. The methods of \<open>firehose.Context\<close> are not
  covered here, so the model records every call that reaches a context, as the context and
  the call, in the order the code makes them: a method called on it, or a collaborator
  that is handed it (\<open>misc.ApplyDAOHardFork\<close>, the EVM that \<open>ApplyMessage\<close> runs, the
  engine's \<open>Finalize\<close>). Calls that belong to a transaction carry its index in the
  block.
\<close>

datatype ctx = Canonical | Speculative | Sync

datatype call =
    StartBlock
  | ApplyDAOHardFork
  | NewSpeculativeExecutionContextWithBuffer
  | StartTransaction nat
  | RecordTrxFrom nat
  | ApplyMessage nat
  | EndTransaction nat
  | FlushTransaction nat
  | FinalizeBlock
  | EngineFinalize

record Context =
  ref :: ctx
  Enabled :: bool

text \<open>
  Modelled from the spec: \<open>NewSpeculativeExecutionContextWithBuffer\<close> (in
  \<open>context.go\<close>, not covered here) returns the transaction-scoped speculative context, a recording
  (enabled) context over the buffer it is given.
\<close>

definition speculative_context :: Context where
  "speculative_context = \<lparr>ref = Speculative, Enabled = True\<rparr>"

text \<open>
  What \<open>Process\<close> reads of a transaction: the error of \<open>tx.AsMessage\<close>, and the error,
  the gas used and the failure flag that \<open>ApplyMessage\<close> returns for it. What it
  reads of the chain configuration and the block: the DAO fork condition and the
  process-wide \<open>BlockProgressEnabled\<close>.
\<close>

record Transaction =
  AsMessage_err :: error
  ApplyMessage_err :: error
  ApplyMessage_gas :: "64 word"
  ApplyMessage_failed :: bool

record Receipt =
  Failed :: bool
  CumulativeGasUsed :: "64 word"
  ReceiptGasUsed :: "64 word"

record Config =
  DAOForkSupport :: bool
  DAOForkBlock :: "int option"
  BlockNumber :: int
  BlockProgressEnabled :: bool

record pstate =
  calls :: "(ctx \<times> call) list"
  usedGas :: "64 word"

definition record_call :: "ctx \<Rightarrow> call \<Rightarrow> pstate \<Rightarrow> pstate" where
  "record_call c x st = st\<lparr>calls := calls st @ [(c, x)]\<rparr>"

text \<open>
  \<open>ApplyTransaction\<close>: it returns early with the error of \<open>AsMessage\<close> or of
  \<open>ApplyMessage\<close>, otherwise it adds the gas to \<open>*usedGas\<close> and builds the receipt.
\<close>

definition ApplyTransaction ::
  "Context \<Rightarrow> nat \<Rightarrow> Transaction \<Rightarrow> pstate \<Rightarrow> (string + Receipt) \<times> pstate" where
  "ApplyTransaction txFirehoseContext i tx st =
     (case AsMessage_err tx of
        Some err \<Rightarrow> (Inl err, st)
      | None \<Rightarrow>
          (let st1 = (if Enabled txFirehoseContext
                      then record_call (ref txFirehoseContext) (RecordTrxFrom i) st else st);
               st2 = record_call (ref txFirehoseContext) (ApplyMessage i) st1
           in case ApplyMessage_err tx of
                Some err \<Rightarrow> (Inl err, st2)
              | None \<Rightarrow>
                  (let st3 = st2\<lparr>usedGas := usedGas st2 + ApplyMessage_gas tx\<rparr>
                   in (Inr \<lparr>Failed = ApplyMessage_failed tx,
                             CumulativeGasUsed = usedGas st3,
                             ReceiptGasUsed = ApplyMessage_gas tx\<rparr>, st3))))"

text \<open>
  The loop of \<open>Process\<close> over the transactions of the block:
  \<^verbatim>\<open>
  for i, tx := range block.Transactions() {
      statedb.Prepare(tx.Hash(), block.Hash(), i)
      if txFirehoseContext.Enabled() {
          txFirehoseContext.StartTransaction(tx, uint(i), nil)
      }
      receipt, err := ApplyTransaction(..., txFirehoseContext)
      if err != nil {
          return nil, nil, 0, err
      }
      if txFirehoseContext.Enabled() {
          txFirehoseContext.EndTransaction(receipt)
          firehoseContext.FlushTransaction(txFirehoseContext)
      }
      receipts = append(receipts, receipt)
      allLogs = append(allLogs, receipt.Logs...)
  }
  \<close>
\<close>

fun process_transactions ::
  "Context \<Rightarrow> Context \<Rightarrow> nat \<Rightarrow> Transaction list \<Rightarrow> Receipt list \<Rightarrow> pstate
     \<Rightarrow> (string + Receipt list) \<times> pstate" where
  "process_transactions firehoseContext txFirehoseContext i [] receipts st = (Inr receipts, st)"
| "process_transactions firehoseContext txFirehoseContext i (tx # txs) receipts st =
     (let st1 = (if Enabled txFirehoseContext
                 then record_call (ref txFirehoseContext) (StartTransaction i) st else st)
      in case ApplyTransaction txFirehoseContext i tx st1 of
           (Inl err, st2) \<Rightarrow> (Inl err, st2)
         | (Inr receipt, st2) \<Rightarrow>
             (let st3 = (if Enabled txFirehoseContext
                         then record_call (ref firehoseContext) (FlushTransaction i)
                                (record_call (ref txFirehoseContext) (EndTransaction i) st2)
                         else st2)
              in process_transactions firehoseContext txFirehoseContext (i + 1) txs
                   (receipts @ [receipt]) st3))"

text \<open>
  \<open>Process\<close> itself. The speculative context is built once, ahead of the loop:
  \<^verbatim>\<open>
  txFirehoseContext := firehoseContext
  if txFirehoseContext.Enabled() {
      txFirehoseContext = firehose.NewSpeculativeExecutionContextWithBuffer(firehose.TxSyncBuffer)
  }
  \<close>
  and after the loop:
  \<^verbatim>\<open>
  if firehoseContext.Enabled() {
      firehoseContext.FinalizeBlock(block)
  } else if firehose.BlockProgressEnabled {
      firehose.SyncContext().FinalizeBlock(block)
  }
  p.engine.Finalize(p.bc, header, statedb, block.Transactions(), block.Uncles(), firehoseContext)
  return receipts, allLogs, *usedGas, nil
  \<close>
  The result is the error, or the receipts with the gas used.
\<close>

definition Process ::
  "Config \<Rightarrow> Context \<Rightarrow> Transaction list \<Rightarrow> (string + Receipt list \<times> 64 word) \<times> pstate" where
  "Process config firehoseContext txs =
     (let st0 = \<lparr>calls = [], usedGas = 0\<rparr>;
          st1 = (if Enabled firehoseContext
                 then record_call (ref firehoseContext) StartBlock st0 else st0);
          st2 = (if DAOForkSupport config \<and> DAOForkBlock config \<noteq> None
                    \<and> DAOForkBlock config = Some (BlockNumber config)
                 then record_call (ref firehoseContext) ApplyDAOHardFork st1 else st1);
          txFirehoseContext = (if Enabled firehoseContext then speculative_context
                               else firehoseContext);
          st3 = (if Enabled firehoseContext
                 then record_call (ref txFirehoseContext) NewSpeculativeExecutionContextWithBuffer st2
                 else st2)
      in case process_transactions firehoseContext txFirehoseContext 0 txs [] st3 of
           (Inl err, st4) \<Rightarrow> (Inl err, st4)
         | (Inr receipts, st4) \<Rightarrow>
             (let st5 = (if Enabled firehoseContext
                         then record_call (ref firehoseContext) FinalizeBlock st4
                         else if BlockProgressEnabled config
                         then record_call Sync FinalizeBlock st4
                         else st4);
                  st6 = record_call (ref firehoseContext) EngineFinalize st5
              in (Inr (receipts, usedGas st6), st6)))"

text \<open>
  Reading a run: whether \<open>ApplyTransaction\<close> returns a nil error for a transaction,
  how many transactions are applied before the first that does not, the calls of one
  kind in a log, and the calls made on one context.
\<close>

definition applies :: "Transaction \<Rightarrow> bool" where
  "applies tx = (AsMessage_err tx = None \<and> ApplyMessage_err tx = None)"

definition applied :: "Transaction list \<Rightarrow> nat" where
  "applied txs = length (takeWhile applies txs)"

definition calls_on :: "ctx \<Rightarrow> (ctx \<times> call) list \<Rightarrow> call list" where
  "calls_on c log = map snd (filter (\<lambda>e. fst e = c) log)"

definition dao_calls :: "Config \<Rightarrow> call list" where
  "dao_calls config =
     (if DAOForkSupport config \<and> DAOForkBlock config = Some (BlockNumber config)
      then [ApplyDAOHardFork] else [])"

text \<open>The calls of a transaction that is applied, and of one whose application fails.\<close>

definition applied_calls :: "ctx \<Rightarrow> ctx \<Rightarrow> nat \<Rightarrow> (ctx \<times> call) list" where
  "applied_calls f t j =
     [(t, StartTransaction j), (t, RecordTrxFrom j), (t, ApplyMessage j),
      (t, EndTransaction j), (f, FlushTransaction j)]"

definition aborted_calls :: "ctx \<Rightarrow> nat \<Rightarrow> Transaction \<Rightarrow> (ctx \<times> call) list" where
  "aborted_calls t j tx =
     (t, StartTransaction j)
       # (if AsMessage_err tx = None then [(t, RecordTrxFrom j), (t, ApplyMessage j)] else [])"

definition abort_error :: "Transaction \<Rightarrow> string" where
  "abort_error tx =
     (case AsMessage_err tx of
        Some err \<Rightarrow> err
      | None \<Rightarrow> (case ApplyMessage_err tx of Some err \<Rightarrow> err | None \<Rightarrow> []))"

fun transaction_scoped :: "call \<Rightarrow> bool" where
  "transaction_scoped (StartTransaction i) = True"
| "transaction_scoped (RecordTrxFrom i) = True"
| "transaction_scoped (ApplyMessage i) = True"
| "transaction_scoped (EndTransaction i) = True"
| "transaction_scoped x = False"

definition canonical_context :: Context where
  "canonical_context = \<lparr>ref = Canonical, Enabled = True\<rparr>"

definition disabled_context :: Context where
  "disabled_context = \<lparr>ref = Canonical, Enabled = False\<rparr>"

definition plain_config :: Config where
  "plain_config =
     \<lparr>DAOForkSupport = False, DAOForkBlock = None, BlockNumber = 1,
      BlockProgressEnabled = False\<rparr>"

definition good_tx :: Transaction where
  "good_tx = \<lparr>AsMessage_err = None, ApplyMessage_err = None, ApplyMessage_gas = 21000,
              ApplyMessage_failed = False\<rparr>"

definition bad_tx :: Transaction where
  "bad_tx = \<lparr>AsMessage_err = None, ApplyMessage_err = Some ''nonce too low'',
             ApplyMessage_gas = 0, ApplyMessage_failed = False\<rparr>"

text \<open>
  Modelled from the spec: \<open>NewSpeculativeExecutionContextWithBuffer\<close>, the recording
  methods of \<open>Context\<close> and \<open>FlushTransaction\<close> (in \<open>context.go\<close>, not covered here),
  as far as they touch \<open>firehose.TxSyncBuffer\<close>. The speculative context wraps the
  reset, reused buffer: it prints through the \<open>ToBufferPrinter\<close> that
  \<open>NewToBufferPrinterWithBuffer\<close> builds over it. A call made on the speculative
  context records its lines there with \<open>Print\<close>, whatever they are (\<open>emits\<close> gives the
  lines of a call). \<open>FlushTransaction\<close> hands the private buffer's entire content to
  the canonical context's sink as one write, and the buffer is reset, not reallocated,
  for its next use. The state is the printer over \<open>TxSyncBuffer\<close>, which may hold
  what an abandoned transaction left there, and the writes that the flushes handed
  over.
\<close>

record tx_buffer_state =
  txPrinter :: ToBufferPrinter
  flushed :: "string list"

definition perform ::
  "(call \<Rightarrow> string list list) \<Rightarrow> tx_buffer_state \<Rightarrow> ctx \<times> call \<Rightarrow> tx_buffer_state" where
  "perform emits s e =
     (case snd e of
        NewSpeculativeExecutionContextWithBuffer \<Rightarrow>
          s\<lparr>txPrinter := NewToBufferPrinterWithBuffer (buffer (txPrinter s))\<rparr>
      | FlushTransaction i \<Rightarrow>
          s\<lparr>flushed := flushed s @ [buffer (txPrinter s)],
            txPrinter := ToBufferPrinter_Reset (txPrinter s)\<rparr>
      | _ \<Rightarrow>
          (if fst e = Speculative
           then s\<lparr>txPrinter := foldl ToBufferPrinter_Print (txPrinter s) (emits (snd e))\<rparr>
           else s))"

text \<open>
  The calls of a run performed in order; the content of the buffer at each
  \<open>StartTransaction\<close> of a run, with the index of the transaction; and the lines that
  the calls of one transaction record.
\<close>

definition replay ::
  "(call \<Rightarrow> string list list) \<Rightarrow> tx_buffer_state \<Rightarrow> (ctx \<times> call) list \<Rightarrow> tx_buffer_state" where
  "replay emits s log = foldl (perform emits) s log"

fun buffer_at_starts ::
  "(call \<Rightarrow> string list list) \<Rightarrow> tx_buffer_state \<Rightarrow> (ctx \<times> call) list \<Rightarrow> (nat \<times> string) list" where
  "buffer_at_starts emits s [] = []"
| "buffer_at_starts emits s (e # log) =
     (case snd e of StartTransaction i \<Rightarrow> [(i, buffer (txPrinter s))] | _ \<Rightarrow> [])
       @ buffer_at_starts emits (perform emits s e) log"

definition recorded :: "(call \<Rightarrow> string list list) \<Rightarrow> nat \<Rightarrow> string" where
  "recorded emits i =
     concat (map firehose_line
       (emits (StartTransaction i) @ emits (RecordTrxFrom i) @ emits (ApplyMessage i)
          @ emits (EndTransaction i)))"

text \<open>A buffer that was left non-empty, and calls that print a few lines each.\<close>

definition leftover :: tx_buffer_state where
  "leftover = \<lparr>txPrinter = \<lparr>buffer = ''FIRE leftover''\<rparr>, flushed = []\<rparr>"

definition sample_lines :: "call \<Rightarrow> string list list" where
  "sample_lines x =
     (case x of
        StartTransaction i \<Rightarrow> [[''begin'', FormatUint i]]
      | ApplyMessage i \<Rightarrow> [[''call'', FormatUint i], [''return'', FormatUint i]]
      | EndTransaction i \<Rightarrow> [[''end'', FormatUint i]]
      | _ \<Rightarrow> [])"

section \<open>The EVM call entry points (package vm, evm.go)\<close>

text \<open>
  The errors of package \<open>vm\<close> that the entry points name, and any other error the
  interpreter or a precompiled contract may return (out of gas, invalid jump, ...).
  The gas change reasons are the strings of package \<open>firehose\<close>.
\<close>

datatype vm_error =
    ErrDepth
  | ErrInsufficientBalance
  | ErrNonceUintOverflow
  | ErrContractAddressCollision
  | ErrExecutionReverted
  | ErrMaxCodeSizeExceeded
  | ErrInvalidCode
  | ErrCodeStoreOutOfGas
  | ErrOther string

definition FailedExecutionGasChangeReason :: string where
  "FailedExecutionGasChangeReason = ''failed_execution''"

definition RefundAfterExecutionGasChangeReason :: string where
  "RefundAfterExecutionGasChangeReason = ''refund_after_execution''"

definition IgnoredGasChangeReason :: string where
  "IgnoredGasChangeReason = ''ignored''"

text \<open>
  What reaches the firehose context during a call, in order: the methods called on
  it, with their arguments, and \<open>Handed\<close> for a collaborator that is given the context
  and records on it what it changes (the state database, the transfer function, the
  contract's gas accounting); such a collaborator opens and closes no call frame.
  Gas is \<open>uint64\<close>, a value is a big integer.
\<close>

datatype event =
    StartCall string
  | RecordCallParams string address address int "64 word" "byte list"
  | RecordCallWithoutCode
  | RecordCallFailed "64 word" vm_error
  | RecordGasConsume "64 word" "64 word" string
  | RecordCallReverted
  | EndCall "64 word" "byte list"
  | EndFailedCall "64 word" bool vm_error
  | Handed string

text \<open>
  What a run of the interpreter or of a precompiled contract gives back: the return
  data, the gas left (\<open>contract.Gas\<close> after \<open>Run\<close>), the error, and the calls it made
  on the firehose context meanwhile, those of the calls nested in it included.
\<close>

record run_result =
  run_ret :: "byte list"
  run_gas :: "64 word"
  run_err :: "vm_error option"
  run_events :: "event list"

text \<open>
  What an entry point reads of the EVM and of its collaborators, for the call at hand:
  whether the firehose context is enabled, the call depth and its limit, the answers
  of the state database and of the transfer guard, the chain rules, what the
  precompiled contract or the interpreter returns, and \<open>Contract.UseGas\<close> (gas left,
  amount, reason; it answers whether the gas sufficed and the gas left afterwards),
  which like the constants of package \<open>params\<close> is taken as given.
\<close>

record EVM =
  firehoseEnabled :: bool
  depth :: int
  CallCreateDepth :: int
  CanTransfer :: bool
  Exist :: bool
  isPrecompile :: bool
  IsHomestead :: bool
  IsEIP158 :: bool
  IsBerlin :: bool
  IsLondon :: bool
  GetCode :: "byte list"
  RunPrecompiledContract :: run_result
  interpreter_Run :: run_result
  callerNonce :: "64 word"
  addressNonce :: "64 word"
  contractHash :: hash
  emptyCodeHash :: hash
  MaxCodeSize :: nat
  CreateDataGas :: "64 word"
  UseGas :: "64 word \<Rightarrow> 64 word \<Rightarrow> string \<Rightarrow> bool \<times> 64 word"

type_synonym call_result = "byte list \<times> 64 word \<times> vm_error option"

text \<open>Every call on the context stands under \<open>if evm.firehoseContext.Enabled()\<close>, and a
  collaborator handed a disabled context records nothing.\<close>

definition on :: "EVM \<Rightarrow> event list \<Rightarrow> event list" where
  "on evm es = (if firehoseEnabled evm then es else [])"

text \<open>
  The end of \<open>Call\<close>, \<open>CallCode\<close>, \<open>DelegateCall\<close> and \<open>StaticCall\<close> is the same block
  in all four; \<open>ret\<close>, \<open>gas\<close> and \<open>err\<close> are what the execution before it gave back,
  \<open>tr\<close> the trace so far:
  \<^verbatim>\<open>
  if err != nil {
      if evm.firehoseContext.Enabled() {
          evm.firehoseContext.RecordCallFailed(gas, err.Error())
      }
      evm.StateDB.RevertToSnapshot(snapshot)
      if err != ErrExecutionReverted {
          if evm.firehoseContext.Enabled() {
              evm.firehoseContext.RecordGasConsume(gas, gas, firehose.FailedExecutionGasChangeReason)
          }
          gas = 0
      } else {
          if evm.firehoseContext.Enabled() {
              evm.firehoseContext.RecordCallReverted()
          }
      }
  }
  if evm.firehoseContext.Enabled() {
      evm.firehoseContext.EndCall(gas, ret)
  }
  return ret, gas, err
  \<close>
\<close>

definition finish_call :: "EVM \<Rightarrow> event list \<Rightarrow> run_result \<Rightarrow> call_result \<times> event list" where
  "finish_call evm tr r =
     (let ret = run_ret r;
          gas = run_gas r
      in case run_err r of
           None \<Rightarrow> ((ret, gas, None), tr @ on evm [EndCall gas ret])
         | Some err \<Rightarrow>
             (let tr1 = tr @ on evm [RecordCallFailed gas err]
              in if err \<noteq> ErrExecutionReverted
                 then ((ret, 0, Some err),
                       tr1 @ on evm [RecordGasConsume gas gas FailedExecutionGasChangeReason]
                           @ on evm [EndCall 0 ret])
                 else ((ret, gas, Some err),
                       tr1 @ on evm [RecordCallReverted] @ on evm [EndCall gas ret])))"

text \<open>
  The step between the guards and that block: a precompiled contract runs, or the
  interpreter runs the code on a new contract. Only \<open>Call\<close> looks at the code first:
  without code nothing runs, \<open>ret, err = nil, nil\<close> and the gas is unchanged.
\<close>

definition run_code :: "EVM \<Rightarrow> run_result" where
  "run_code evm =
     (interpreter_Run evm)\<lparr>run_events := Handed ''NewContract'' # run_events (interpreter_Run evm)\<rparr>"

definition execute :: "EVM \<Rightarrow> run_result" where
  "execute evm = (if isPrecompile evm then RunPrecompiledContract evm else run_code evm)"

definition Call_execute :: "EVM \<Rightarrow> 64 word \<Rightarrow> run_result" where
  "Call_execute evm gas =
     (if isPrecompile evm then RunPrecompiledContract evm
      else if length (GetCode evm) = 0
      then \<lparr>run_ret = [], run_gas = gas, run_err = None, run_events = [RecordCallWithoutCode]\<rparr>
      else run_code evm)"

definition Call ::
  "EVM \<Rightarrow> address \<Rightarrow> address \<Rightarrow> byte list \<Rightarrow> 64 word \<Rightarrow> int \<Rightarrow> call_result \<times> event list" where
  "Call evm caller addr input gas value =
     (let tr0 = on evm [StartCall ''CALL'',
                        RecordCallParams ''CALL'' caller addr value gas input]
      in if depth evm > CallCreateDepth evm
         then (([], gas, Some ErrDepth), tr0 @ on evm [EndFailedCall gas True ErrDepth])
         else if value \<noteq> 0 \<and> \<not> CanTransfer evm
         then (([], gas, Some ErrInsufficientBalance),
               tr0 @ on evm [EndFailedCall gas True ErrInsufficientBalance])
         else if \<not> Exist evm \<and> \<not> isPrecompile evm \<and> IsEIP158 evm \<and> value = 0
         then (([], gas, None), tr0 @ on evm [EndCall gas []])
         else finish_call evm
                (tr0 @ (if \<not> Exist evm then on evm [Handed ''StateDB.CreateAccount''] else [])
                     @ on evm [Handed ''Context.Transfer'']
                     @ on evm (run_events (Call_execute evm gas)))
                (Call_execute evm gas))"

definition CallCode ::
  "EVM \<Rightarrow> address \<Rightarrow> address \<Rightarrow> byte list \<Rightarrow> 64 word \<Rightarrow> int \<Rightarrow> call_result \<times> event list" where
  "CallCode evm caller addr input gas value =
     (let tr0 = on evm [StartCall ''CALLCODE'',
                        RecordCallParams ''CALLCODE'' caller addr value gas input]
      in if depth evm > CallCreateDepth evm
         then (([], gas, Some ErrDepth), tr0 @ on evm [EndFailedCall gas True ErrDepth])
         else if \<not> CanTransfer evm
         then (([], gas, Some ErrInsufficientBalance),
               tr0 @ on evm [EndFailedCall gas True ErrInsufficientBalance])
         else finish_call evm (tr0 @ on evm (run_events (execute evm))) (execute evm))"

text \<open>\<open>DelegateCall\<close> records the address and the value of the parent contract, the
  caller; \<open>StaticCall\<close> records \<open>firehose.EmptyValue\<close>, zero, and touches the account
  with an \<open>AddBalance\<close> of zero before it runs.\<close>

definition DelegateCall ::
  "EVM \<Rightarrow> address \<Rightarrow> int \<Rightarrow> address \<Rightarrow> byte list \<Rightarrow> 64 word \<Rightarrow> call_result \<times> event list" where
  "DelegateCall evm parent parent_value addr input gas =
     (let tr0 = on evm [StartCall ''DELEGATE'',
                        RecordCallParams ''DELEGATE'' parent addr parent_value gas input]
      in if depth evm > CallCreateDepth evm
         then (([], gas, Some ErrDepth), tr0 @ on evm [EndFailedCall gas True ErrDepth])
         else finish_call evm (tr0 @ on evm (run_events (execute evm))) (execute evm))"

definition StaticCall ::
  "EVM \<Rightarrow> address \<Rightarrow> address \<Rightarrow> byte list \<Rightarrow> 64 word \<Rightarrow> call_result \<times> event list" where
  "StaticCall evm caller addr input gas =
     (let tr0 = on evm [StartCall ''STATIC'',
                        RecordCallParams ''STATIC'' caller addr 0 gas input]
      in if depth evm > CallCreateDepth evm
         then (([], gas, Some ErrDepth), tr0 @ on evm [EndFailedCall gas True ErrDepth])
         else finish_call evm
                (tr0 @ on evm [Handed ''StateDB.AddBalance''] @ on evm (run_events (execute evm)))
                (execute evm))"

text \<open>
  \<open>create\<close>. After the guards (depth, balance, nonce overflow, address collision) the
  interpreter runs the init code; the code size and the \<open>0xEF\<close> prefix are checked,
  the code storage gas is charged, and on an error the remaining gas is used up
  unless the error is a revert. It returns the data, the contract address (the zero
  address from a guard), the gas left and the error. The debug tracer
  (\<open>evm.Config.Tracer\<close>), an observer of its own, is left out of all five.
\<close>

definition zero_hash :: hash where
  "zero_hash = replicate 32 0"

definition zero_address :: address where
  "zero_address = replicate 20 0"

type_synonym create_result = "byte list \<times> address \<times> 64 word \<times> vm_error option"

text \<open>The part of \<open>create\<close> after the guards, from the new account on.\<close>

definition create_deploy ::
  "EVM \<Rightarrow> address \<Rightarrow> 64 word \<Rightarrow> int \<Rightarrow> address \<Rightarrow> create_result \<times> event list" where
  "create_deploy evm caller gas value address' =
     (let tr1 = on evm [StartCall ''CREATE'',
                        RecordCallParams ''CREATE'' caller address' value gas []]
                  @ on evm [Handed ''StateDB.SetNonce'']
                  @ on evm [Handed ''StateDB.CreateAccount'']
                  @ (if IsEIP158 evm then on evm [Handed ''StateDB.SetNonce''] else [])
                  @ on evm [Handed ''Context.Transfer'']
                  @ on evm (run_events (run_code evm));
          ret = run_ret (run_code evm);
          gas1 = run_gas (run_code evm);
          err1 = (if run_err (run_code evm) = None \<and> IsEIP158 evm
                     \<and> length ret > MaxCodeSize evm
                  then Some ErrMaxCodeSizeExceeded else run_err (run_code evm));
          err2 = (if err1 = None \<and> length ret \<ge> 1 \<and> ret ! 0 = 0xEF \<and> IsLondon evm
                  then Some ErrInvalidCode else err1);
          createDataGas = of_nat (length ret) * CreateDataGas evm;
          stored = UseGas evm gas1 createDataGas ''code_storage'';
          storing = (if err2 = None
                     then on evm [Handed ''Contract.UseGas'']
                          @ (if fst stored then on evm [Handed ''StateDB.SetCode''] else [])
                     else []);
          gas2 = (if err2 = None then snd stored else gas1);
          err3 = (if err2 = None \<and> \<not> fst stored then Some ErrCodeStoreOutOfGas else err2);
          burnt = UseGas evm gas2 gas2 FailedExecutionGasChangeReason;
          failing = (case err3 of
                       None \<Rightarrow> []
                     | Some err \<Rightarrow>
                         if IsHomestead evm \<or> err \<noteq> ErrCodeStoreOutOfGas
                         then on evm [RecordCallFailed gas2 err]
                              @ (if err \<noteq> ErrExecutionReverted
                                 then on evm [Handed ''Contract.UseGas'']
                                 else on evm [RecordCallReverted])
                         else []);
          gas3 = (case err3 of
                    None \<Rightarrow> gas2
                  | Some err \<Rightarrow>
                      if (IsHomestead evm \<or> err \<noteq> ErrCodeStoreOutOfGas)
                           \<and> err \<noteq> ErrExecutionReverted
                      then snd burnt else gas2)
      in ((ret, address', gas3, err3),
          tr1 @ storing @ failing @ on evm [EndCall gas3 []]))"

definition create ::
  "EVM \<Rightarrow> address \<Rightarrow> 64 word \<Rightarrow> int \<Rightarrow> address \<Rightarrow> create_result \<times> event list" where
  "create evm caller gas value address' =
     (let tr0 = on evm [StartCall ''CREATE'',
                        RecordCallParams ''CREATE'' caller address' value gas []];
          nonce = callerNonce evm
      in if depth evm > CallCreateDepth evm
         then (([], zero_address, gas, Some ErrDepth),
               tr0 @ on evm [EndFailedCall gas True ErrDepth])
         else if \<not> CanTransfer evm
         then (([], zero_address, gas, Some ErrInsufficientBalance),
               tr0 @ on evm [EndFailedCall gas True ErrInsufficientBalance])
         else if nonce + 1 < nonce
         then (([], zero_address, gas, Some ErrNonceUintOverflow),
               tr0 @ on evm [EndFailedCall gas True ErrNonceUintOverflow])
         else if addressNonce evm \<noteq> 0
                 \<or> (contractHash evm \<noteq> zero_hash \<and> contractHash evm \<noteq> emptyCodeHash evm)
         then (([], zero_address, 0, Some ErrContractAddressCollision),
               tr0 @ on evm [Handed ''StateDB.SetNonce'']
                   @ on evm [EndFailedCall gas False ErrContractAddressCollision])
         else create_deploy evm caller gas value address')"

text \<open>
  Reading a trace. \<open>nesting d es\<close> follows the call depth through \<open>es\<close> from depth
  \<open>d\<close>: a \<open>StartCall\<close> opens a frame, an \<open>EndCall\<close> or \<open>EndFailedCall\<close> closes the
  innermost open one and is refused when none is open. A trace is well nested when
  it leaves no frame open. \<open>frame_terminals\<close> lists the terminal events of a trace
  that close no frame opened in it. \<open>framed kind tr\<close>: the trace opens a frame of that
  kind with its first event, ends with a terminal event, and everything in between
  is well nested, so that this terminal event is the one, and the only one, that
  closes the frame.
\<close>

fun is_terminal :: "event \<Rightarrow> bool" where
  "is_terminal (EndCall g r) = True"
| "is_terminal (EndFailedCall g b e) = True"
| "is_terminal x = False"

fun is_start :: "event \<Rightarrow> bool" where
  "is_start (StartCall k) = True"
| "is_start x = False"

fun nesting :: "nat \<Rightarrow> event list \<Rightarrow> nat option" where
  "nesting d [] = Some d"
| "nesting d (e # es) =
     (if is_start e then nesting (Suc d) es
      else if is_terminal e then (case d of 0 \<Rightarrow> None | Suc d' \<Rightarrow> nesting d' es)
      else nesting d es)"

definition well_nested :: "event list \<Rightarrow> bool" where
  "well_nested es = (nesting 0 es = Some 0)"

fun frame_terminals :: "nat \<Rightarrow> event list \<Rightarrow> event list" where
  "frame_terminals d [] = []"
| "frame_terminals d (e # es) =
     (if is_start e then frame_terminals (Suc d) es
      else if is_terminal e
      then (case d of 0 \<Rightarrow> e # frame_terminals 0 es | Suc d' \<Rightarrow> frame_terminals d' es)
      else frame_terminals d es)"

definition closes_frame :: "event list \<Rightarrow> bool" where
  "closes_frame rest =
     (rest \<noteq> [] \<and> well_nested (butlast rest) \<and> is_terminal (last rest)
      \<and> frame_terminals 0 rest = [last rest])"

definition framed :: "string \<Rightarrow> event list \<Rightarrow> bool" where
  "framed kind tr =
     (case tr of [] \<Rightarrow> False | e # rest \<Rightarrow> e = StartCall kind \<and> closes_frame rest)"

definition quiet :: "event \<Rightarrow> bool" where
  "quiet e = (\<not> is_start e \<and> \<not> is_terminal e)"


text \<open>An EVM to run the entry points on: the interpreter makes one nested static
  call and then fails with the given error, 700 gas left.\<close>

definition failing_run :: "vm_error \<Rightarrow> run_result" where
  "failing_run err =
     \<lparr>run_ret = [8, 195], run_gas = 700, run_err = Some err,
      run_events = [StartCall ''STATIC'', EndCall 5 []]\<rparr>"

definition test_evm :: "vm_error \<Rightarrow> EVM" where
  "test_evm err =
     \<lparr>firehoseEnabled = True, depth = 1, CallCreateDepth = 1024, CanTransfer = True,
      Exist = True, isPrecompile = False, IsHomestead = True, IsEIP158 = True,
      IsBerlin = True, IsLondon = True, GetCode = [96, 0], 
      RunPrecompiledContract = failing_run err, interpreter_Run = failing_run err,
      callerNonce = 7, addressNonce = 0, contractHash = zero_hash, emptyCodeHash = [197, 210],
      MaxCodeSize = 24576, CreateDataGas = 200,
      UseGas = (\<lambda>gas amount reason. if gas < amount then (False, gas) else (True, gas - amount))\<rparr>"

section \<open>Properties of the value formatters\<close>

lemma fromHexChar_hextable: "n < 16 \<Longrightarrow> fromHexChar (hextable ! n) = Some n"
proof -
  assume "n < 16"
  then have "n \<in> {0,1,2,3,4,5,6,7,8,9,10,11,12,13,14,15}" by (simp; arith)
  then show ?thesis
    by (auto simp: hextable_def fromHexChar_def)
qed

lemma hextable_nth_mem: "n < 16 \<Longrightarrow> hextable ! n \<in> set hextable"
  by (rule nth_mem) (simp add: hextable_def)

lemma byte_nibbles: "unat (b :: byte) div 16 < 16" "unat b mod 16 < 16"
  using unsigned_less [of b, where 'a = nat] by simp_all

lemma DecodeString_EncodeToString: "DecodeString (EncodeToString bs) = Some bs"
proof (induction bs)
  case Nil
  show ?case by (simp add: EncodeToString_def)
next
  case (Cons b bs)
  have "of_nat (unat b div 16 * 16 + unat b mod 16) = b" by simp
  with Cons byte_nibbles [of b] show ?case
    by (simp add: EncodeToString_def fromHexChar_hextable)
qed

lemma EncodeToString_chars: "set (EncodeToString bs) \<subseteq> set hextable"
  using byte_nibbles by (auto simp: EncodeToString_def hextable_nth_mem)

lemma sentinel_not_hex_digit: "CHR ''.'' \<notin> set hextable"
  by (simp add: hextable_def)

lemma EncodeToString_no_sentinel: "CHR ''.'' \<notin> set (EncodeToString bs)"
  using EncodeToString_chars sentinel_not_hex_digit by blast

lemma length_EncodeToString: "length (EncodeToString bs) = 2 * length bs"
  by (induction bs) (simp_all add: EncodeToString_def)

lemma nat_bytes_0: "nat_bytes 0 = []"
  by (simp add: nat_bytes.simps)

lemma nat_bytes_pos: "0 < n \<Longrightarrow> nat_bytes n = nat_bytes (n div 256) @ [of_nat (n mod 256)]"
  by (subst nat_bytes.simps) simp

lemma nat_bytes_eq_Nil: "nat_bytes n = [] \<longleftrightarrow> n = 0"
  by (cases "n = 0") (simp_all add: nat_bytes_0 nat_bytes_pos)

lemma be_value_snoc: "be_value (bs @ [b]) = be_value bs * 256 + unat b"
  by (simp add: be_value_def)

lemma be_value_nat_bytes: "be_value (nat_bytes n) = n"
proof (induction n rule: nat_bytes.induct)
  case (1 n)
  show ?case
  proof (cases "n = 0")
    case True
    then show ?thesis by (simp add: nat_bytes_0 be_value_def)
  next
    case False
    have "unat (of_nat (n mod 256) :: byte) = n mod 256"
      by (simp add: unat_of_nat)
    with False 1 show ?thesis
      by (simp add: nat_bytes_pos be_value_snoc)
  qed
qed

lemma nat_bytes_no_leading_zero: "nat_bytes n \<noteq> 0 # bs"
proof (induction n arbitrary: bs rule: nat_bytes.induct)
  case (1 n)
  show ?case
  proof (cases "n = 0")
    case True
    then show ?thesis by (simp add: nat_bytes_0)
  next
    case False
    show ?thesis
    proof (cases "n div 256 = 0")
      case True
      with False have small: "n < 256" "0 < n"
        by (auto simp: div_eq_0_iff)
      then have "unat (of_nat n :: byte) = n"
        by (simp add: unat_of_nat)
      with small have "(of_nat n :: byte) \<noteq> 0"
        by auto
      with small True show ?thesis
        by (simp add: nat_bytes_pos nat_bytes_0)
    next
      case nz: False
      then have "nat_bytes (n div 256) \<noteq> []" by (simp add: nat_bytes_eq_Nil)
      then obtain c cs where cs: "nat_bytes (n div 256) = c # cs"
        by (cases "nat_bytes (n div 256)") auto
      with 1 [OF False, of cs] have "c \<noteq> 0" by auto
      with False cs show ?thesis by (simp add: nat_bytes_pos)
    qed
  qed
qed


lemma Hex_Nil: "Hex [] = ''.''"
  by (simp add: Hex_def)

lemma Hex_nonempty: "bs \<noteq> [] \<Longrightarrow> Hex bs = EncodeToString bs"
  by (simp add: Hex_def)

lemma Bytes_zero: "Bytes 0 = []"
  by (simp add: Bytes_def nat_bytes_0)

lemma Bytes_eq_Nil: "Bytes n = [] \<longleftrightarrow> n = 0"
  by (simp add: Bytes_def nat_bytes_eq_Nil)

lemma BigInt_legacy_agrees: "BigInt_legacy (Some n) = Inr (BigInt (Some n))"
  by (simp add: BigInt_legacy_def BigInt_def)

lemma BigInt_legacy_nil: "BigInt_legacy None = Inl NilPointerDereference"
  by (simp add: BigInt_legacy_def)

text \<open>
  C6, as stated, fails at the big integer zero: its minimal big-endian byte
  representation is the empty slice, whose hex encoding is the empty string, but
  \<open>BigInt\<close> goes through \<open>Hex\<close> and prints the sentinel.
\<close>

theorem BigInt_zero_is_not_hex: "BigInt (Some 0) \<noteq> EncodeToString (Bytes 0)"
  by (simp add: BigInt_def Hex_def Bytes_zero EncodeToString_def)

text \<open>
  C6, amended. \<open>Hex\<close> maps the empty byte string to the sentinel \<open>.\<close> and every
  non-empty byte string to its lowercase hex encoding, which decodes back to the
  original bytes. \<open>BigInt\<close> maps a nil big integer and the big integer zero to the
  sentinel, and every other big integer to the lowercase hex of the minimal big-endian
  bytes of its absolute value (the bytes read back as that value and have no leading
  zero byte). No hex encoding contains the sentinel character, so the sentinel never
  collides with the output for a non-empty input.
\<close>

theorem formatters_sentinel_and_hex:
  "Hex [] = ''.''
   \<and> Hex bs = (if bs = [] then ''.'' else EncodeToString bs)
   \<and> set (EncodeToString bs) \<subseteq> set hextable
   \<and> DecodeString (EncodeToString bs) = Some bs
   \<and> BigInt None = ''.''
   \<and> BigInt (Some n) = (if n = 0 then ''.'' else EncodeToString (Bytes n))
   \<and> be_value (Bytes n) = nat \<bar>n\<bar>
   \<and> (\<forall>rest. Bytes n \<noteq> 0 # rest)
   \<and> CHR ''.'' \<notin> set (EncodeToString bs)
   \<and> EncodeToString bs \<noteq> ''.''"
proof -
  have hex: "Hex bs = (if bs = [] then ''.'' else EncodeToString bs)"
    by (simp add: Hex_def)
  have big: "BigInt (Some n) = (if n = 0 then ''.'' else EncodeToString (Bytes n))"
    by (simp add: BigInt_def Hex_def Bytes_eq_Nil)
  have val: "be_value (Bytes n) = nat \<bar>n\<bar>"
    by (simp add: Bytes_def be_value_nat_bytes)
  have minimal: "\<forall>rest. Bytes n \<noteq> 0 # rest"
    by (simp add: Bytes_def nat_bytes_no_leading_zero)
  have nodot: "CHR ''.'' \<notin> set (EncodeToString bs)"
    by (rule EncodeToString_no_sentinel)
  then have differs: "EncodeToString bs \<noteq> ''.''"
    by auto
  from hex big val minimal nodot differs show ?thesis
    by (simp add: Hex_Nil BigInt_def EncodeToString_chars DecodeString_EncodeToString)
qed

text \<open>
  C10. \<open>BigInt\<close> maps the zero big integer to the sentinel \<open>.\<close>, the output it
  also produces for a nil big integer: the two are indistinguishable on the wire.
\<close>

theorem BigInt_zero_is_sentinel:
  "BigInt (Some 0) = ''.'' \<and> BigInt (Some 0) = BigInt None"
  by (simp add: BigInt_def Hex_def Bytes_zero)

section \<open>Properties of the call-index stack\<close>

lemma MustPop_empty: "MustPop [] = (Inl (PanicMessage must_exist), [])"
  by (simp add: MustPop_def Pop_def assert_string_def)

lemma MustPeek_empty: "MustPeek [] = Inl (PanicMessage must_exist)"
  by (simp add: MustPeek_def Peek_def assert_string_def)

lemma MustPop_string: "MustPop (IString v # rest) = (Inr v, rest)"
  by (simp add: MustPop_def Pop_def assert_string_def)

lemma MustPeek_string: "MustPeek (IString v # rest) = Inr v"
  by (simp add: MustPeek_def Peek_def assert_string_def)

text \<open>The stack stores untyped values: a nil or a non-string element on top makes
  both panic as well, \<open>MustPop\<close> after removing it.\<close>

lemma MustPop_not_a_string:
  "MustPop (INil # rest) = (Inl (PanicMessage must_exist), rest)"
  "MustPop (IOther # rest) = (Inl TypeAssertionFailed, rest)"
  "MustPeek (INil # rest) = Inl (PanicMessage must_exist)"
  "MustPeek (IOther # rest) = Inl TypeAssertionFailed"
  by (simp_all add: MustPop_def MustPeek_def Pop_def Peek_def assert_string_def)

lemma holds_strings_cases:
  assumes "holds_strings s"
  obtains "s = []" | v rest where "s = IString v # rest"
proof (cases s)
  case Nil
  then show ?thesis using that by simp
next
  case (Cons x rest)
  with assms obtain v where "x = IString v"
    by (cases x) (simp_all add: holds_strings_def)
  with Cons show ?thesis using that by simp
qed

lemma top_is_string_simps:
  "top_is_string [] = False"
  "top_is_string (INil # rest) = False"
  "top_is_string (IOther # rest) = False"
  "top_is_string (IString v # rest) = True"
  by (simp_all add: top_is_string_def)

lemma holds_strings_top: "holds_strings s \<Longrightarrow> top_is_string s \<longleftrightarrow> s \<noteq> []"
  by (erule holds_strings_cases) (simp_all add: top_is_string_simps)

lemma panics_iff_no_string_on_top:
  "panics (fst (MustPop s)) \<longleftrightarrow> \<not> top_is_string s"
  "panics (MustPeek s) \<longleftrightarrow> \<not> top_is_string s"
proof -
  consider "s = []" | rest where "s = INil # rest" | rest where "s = IOther # rest"
    | v rest where "s = IString v # rest"
    by (cases s; cases "hd s") auto
  then show "panics (fst (MustPop s)) \<longleftrightarrow> \<not> top_is_string s"
    by cases
      (simp_all add: MustPop_empty MustPop_string MustPop_not_a_string top_is_string_simps
         panics_def)
  consider "s = []" | rest where "s = INil # rest" | rest where "s = IOther # rest"
    | v rest where "s = IString v # rest"
    by (cases s; cases "hd s") auto
  then show "panics (MustPeek s) \<longleftrightarrow> \<not> top_is_string s"
    by cases
      (simp_all add: MustPeek_empty MustPeek_string MustPop_not_a_string top_is_string_simps
         panics_def)
qed

text \<open>
  C9, as stated, fails: a stack whose top element is not a string is not empty, yet
  \<open>MustPop\<close> and \<open>MustPeek\<close> panic on it, at the type assertion when the element
  is of another type and with the fixed message when it is nil.
\<close>

theorem MustPop_MustPeek_panic_on_non_string_top:
  "\<not> (panics (fst (MustPop [IOther, IString ''1''])) \<longleftrightarrow> [IOther, IString ''1''] = [])
   \<and> \<not> (panics (MustPeek [IOther, IString ''1'']) \<longleftrightarrow> [IOther, IString ''1''] = [])
   \<and> MustPop [IOther, IString ''1''] = (Inl TypeAssertionFailed, [IString ''1''])
   \<and> MustPeek [IOther, IString ''1''] = Inl TypeAssertionFailed
   \<and> \<not> (panics (MustPeek [INil]) \<longleftrightarrow> [INil] = [])
   \<and> MustPeek [INil] = Inl (PanicMessage must_exist)"
  by (simp add: MustPop_not_a_string panics_def)

text \<open>
  C9, amended. \<open>MustPop\<close> and \<open>MustPeek\<close> panic exactly when the stack has no
  string on top: when it is empty, with the fixed message and no defaulted value, and
  when its top element is nil or of another type. So on a stack of call indices (every
  element a string) they panic exactly when the stack is empty. Whenever the top
  element is a string they return it without panicking, and \<open>MustPop\<close> also removes
  it.
\<close>

theorem MustPop_MustPeek_panic_iff_empty:
  "(panics (fst (MustPop s)) \<longleftrightarrow> \<not> top_is_string s)
   \<and> (panics (MustPeek s) \<longleftrightarrow> \<not> top_is_string s)
   \<and> (holds_strings s \<longrightarrow>
         (panics (fst (MustPop s)) \<longleftrightarrow> s = []) \<and> (panics (MustPeek s) \<longleftrightarrow> s = []))
   \<and> (s = [] \<longrightarrow> MustPop s = (Inl (PanicMessage must_exist), [])
                 \<and> MustPeek s = Inl (PanicMessage must_exist))
   \<and> (\<forall>v rest. s = IString v # rest \<longrightarrow>
         MustPop s = (Inr v, rest) \<and> MustPeek s = Inr v)
   \<and> (\<forall>rest. s = INil # rest \<longrightarrow>
         MustPop s = (Inl (PanicMessage must_exist), rest)
         \<and> MustPeek s = Inl (PanicMessage must_exist))
   \<and> (\<forall>rest. s = IOther # rest \<longrightarrow>
         MustPop s = (Inl TypeAssertionFailed, rest) \<and> MustPeek s = Inl TypeAssertionFailed)"
  using holds_strings_top [of s]
  by (auto simp: panics_iff_no_string_on_top MustPop_empty MustPeek_empty MustPop_string
        MustPeek_string MustPop_not_a_string)

theorem MustPop_MustPeek_witness:
  "holds_strings [IString ''2'', IString ''1'']
   \<and> MustPop [IString ''2'', IString ''1''] = (Inr ''2'', [IString ''1''])
   \<and> MustPeek [IString ''2'', IString ''1''] = Inr ''2''
   \<and> \<not> panics (fst (MustPop [IString ''2'', IString ''1'']))
   \<and> \<not> panics (MustPeek [IString ''2'', IString ''1''])
   \<and> holds_strings []
   \<and> panics (fst (MustPop []))
   \<and> panics (MustPeek [])
   \<and> \<not> top_is_string [IOther, IString ''1'']
   \<and> panics (fst (MustPop [IOther, IString ''1'']))
   \<and> panics (MustPeek [IOther, IString ''1''])"
proof -
  have h2: "holds_strings [IString ''2'', IString ''1'']"
    by (simp add: holds_strings_def)
  have h0: "holds_strings []"
    by (simp add: holds_strings_def)
  show ?thesis
    using h2 h0 MustPop_MustPeek_panic_iff_empty [of "[IString ''2'', IString ''1'']"]
      MustPop_MustPeek_panic_iff_empty [of "[]"]
      MustPop_MustPeek_panic_iff_empty [of "[IOther, IString ''1'']"]
    by (simp add: top_is_string_simps panics_def)
qed

section \<open>Properties of the printer's reliable write\<close>

lemma delivered_Cons: "delivered ((a, n, e) # log) = take (nat n) a @ delivered log"
  by (simp add: delivered_def)

lemma delivered_Nil: "delivered [] = []"
  by (simp add: delivered_def)

lemma contract_bounds:
  "obeys_contract wr \<Longrightarrow> 0 \<le> fst (fst (wr s x)) \<and> fst (fst (wr s x)) \<le> int (length x)"
  by (simp add: obeys_contract_def)

lemma retry_post_holds:
  "obeys_contract wr \<Longrightarrow> retry_post loops i in' err w (retry wr loops i in' err w)"
proof (induction wr loops i in' err w rule: retry.induct)
  case (1 wr loops i in' err w)
  note c = \<open>obeys_contract wr\<close>
  define written where "written = fst (fst (wr (sink w) in'))"
  define err' where "err' = snd (fst (wr (sink w) in'))"
  define w' where "w' = w\<lparr>sink := snd (wr (sink w) in'),
                     sink_writes := sink_writes w @ [(in', written, err')]\<rparr>"
  have bounds: "0 \<le> written" "written \<le> int (length in')"
    using contract_bounds [OF c, of "sink w" in'] by (simp_all add: written_def)
  show ?case
  proof (cases "i < loops")
    case False
    then show ?thesis
      by (subst retry.simps) (simp add: retry_post_def)
  next
    case True
    show ?thesis
    proof (cases "int (length in') = written")
      case complete: True
      with True have r: "retry wr loops i in' err w = Completed w'"
        by (subst retry.simps) (simp add: Let_def written_def err'_def w'_def)
      have "sink_writes w' = sink_writes w @ [(in', written, err')]"
        "file_writes w' = file_writes w"
        by (simp_all add: w'_def)
      moreover have "delivered [(in', written, err')] = in'"
        using complete by (simp add: delivered_def)
      ultimately show ?thesis
        using True complete unfolding r retry_post_def
        by (auto simp: short_write_def intro!: exI [of _ "[(in', written, err')]"])
    next
      case short: False
      show ?thesis
      proof (cases "i = loops - 1")
        case last: True
        with True short bounds have r: "retry wr loops i in' err w = Exhausted err' w'"
          by (subst retry.simps) (simp add: Let_def written_def err'_def w'_def)
        have "sink_writes w' = sink_writes w @ [(in', written, err')]"
          "file_writes w' = file_writes w"
          by (simp_all add: w'_def)
        then show ?thesis
          using True short last unfolding r retry_post_def
          by (auto simp: short_write_def intro!: exI [of _ "[(in', written, err')]"])
      next
        case more: False
        with True short bounds
        have r: "retry wr loops i in' err w
                 = retry wr loops (i + 1) (drop (nat written) in') err' w'"
          by (subst retry.simps) (simp add: Let_def written_def err'_def w'_def)
        have ih: "retry_post loops (i + 1) (drop (nat written) in') err' w'
                    (retry wr loops (i + 1) (drop (nat written) in') err' w')"
          using "1.IH" [OF True written_def err'_def w'_def] short bounds more c
          by simp
        have w'_logs: "sink_writes w' = sink_writes w @ [(in', written, err')]"
          "file_writes w' = file_writes w"
          by (simp_all add: w'_def)
        have next_lt: "i + 1 < loops" using True more by simp
        show ?thesis
        proof (cases "retry wr loops (i + 1) (drop (nat written) in') err' w'")
          case (Completed w'')
          with ih obtain att where att:
            "sink_writes w'' = sink_writes w' @ att" "att \<noteq> []" "length att \<le> loops - (i + 1)"
            "chained (drop (nat written) in') att" "list_all short_write (butlast att)"
            "\<not> short_write (last att)" "delivered att = drop (nat written) in'"
            "file_writes w'' = file_writes w'"
            by (auto simp: retry_post_def)
          let ?att = "(in', written, err') # att"
          have "sink_writes w'' = sink_writes w @ ?att" using att w'_logs by simp
          moreover have "length ?att \<le> loops - i" using att next_lt by simp
          moreover have "chained in' ?att" using att by simp
          moreover have "list_all short_write (butlast ?att)"
            using att short by (simp add: short_write_def)
          moreover have "\<not> short_write (last ?att)" using att by simp
          moreover have "delivered ?att = in'" using att by (simp add: delivered_Cons)
          moreover have "file_writes w'' = file_writes w" using att w'_logs by simp
          ultimately show ?thesis
            unfolding r Completed retry_post_def
            by (auto intro!: exI [of _ ?att])
        next
          case (Exhausted e w'')
          with ih next_lt obtain att where att:
            "sink_writes w'' = sink_writes w' @ att" "length att = loops - (i + 1)"
            "chained (drop (nat written) in') att" "list_all short_write att"
            "e = snd (snd (last att))" "file_writes w'' = file_writes w'"
            by (auto simp: retry_post_def)
          let ?att = "(in', written, err') # att"
          have ne: "att \<noteq> []" using att next_lt by auto
          have "sink_writes w'' = sink_writes w @ ?att" using att w'_logs by simp
          moreover have "length ?att = loops - i" using att next_lt by simp
          moreover have "chained in' ?att" using att by simp
          moreover have "list_all short_write ?att"
            using att short by (simp add: short_write_def)
          moreover have "e = snd (snd (last ?att))" using att ne by simp
          moreover have "file_writes w'' = file_writes w" using att w'_logs by simp
          ultimately show ?thesis
            using True unfolding r Exhausted retry_post_def
            by (auto intro!: exI [of _ ?att])
        next
          case (Panicked p w'')
          with ih show ?thesis by (simp add: retry_post_def)
        qed
      qed
    qed
  qed
qed


lemma FormatUint_10: "FormatUint 10 = ''10''"
  by (simp add: FormatUint.simps digit_def)

lemma errstr_10: "errstr 10 e = [CHR 0x0A] @ ''FIREHOSE FAILED WRITING 10x: '' @ format_error e @ [CHR 0x0A]"
  by (simp add: errstr_def FormatUint_10)

lemma flushToFirehose_cases:
  assumes c: "obeys_contract wr"
  shows "\<exists>w'. flushToFirehose wr line (fresh s) = (None, w') \<and>
     ((file_writes w' = [] \<and> sink_writes w' \<noteq> [] \<and> length (sink_writes w') \<le> 10
        \<and> chained line (sink_writes w')
        \<and> list_all short_write (butlast (sink_writes w'))
        \<and> \<not> short_write (last (sink_writes w'))
        \<and> delivered (sink_writes w') = line)
      \<or> (\<exists>att n e. sink_writes w' = att @ [(errstr 10 (snd (snd (last att))), n, e)]
            \<and> length att = 10 \<and> chained line att \<and> list_all short_write att
            \<and> file_writes w' = [(fallback_path, errstr 10 (snd (snd (last att))))]))"
proof -
  have post: "retry_post 10 0 line None (fresh s) (retry wr 10 0 line None (fresh s))"
    by (rule retry_post_holds [OF c])
  show ?thesis
  proof (cases "retry wr 10 0 line None (fresh s)")
    case (Completed w')
    with post show ?thesis
      by (auto simp: flushToFirehose_def retry_post_def fresh_def)
  next
    case (Exhausted err w')
    with post obtain att where att:
      "sink_writes w' = att" "length att = 10" "chained line att" "list_all short_write att"
      "err = snd (snd (last att))" "file_writes w' = []"
      by (auto simp: retry_post_def fresh_def)
    then show ?thesis
      using Exhausted
      by (auto simp: flushToFirehose_def Let_def)
  next
    case (Panicked p w')
    with post show ?thesis by (simp add: retry_post_def)
  qed
qed

lemma obeys_tenth: "obeys_contract tenth_time_lucky"
  by (simp add: obeys_contract_def tenth_time_lucky_def)

lemma obeys_closed: "obeys_contract closed_pipe"
  by (simp add: obeys_contract_def closed_pipe_def)

lemma lucky_run:
  "Print tenth_time_lucky [''a'', ''b''] (fresh 0) =
     (None, \<lparr>sink = 10,
        sink_writes = replicate 9 (''FIRE a b'' @ [CHR 0x0A], 0, Some ''busy'')
                       @ [(''FIRE a b'' @ [CHR 0x0A], 9, None)],
        file_writes = []\<rparr>)"
  by code_simp

lemma closed_run:
  "Print closed_pipe [''a'', ''b''] (fresh 0) =
     (None, \<lparr>sink = 11,
        sink_writes = replicate 10 (''FIRE a b'' @ [CHR 0x0A], 0, Some ''closed pipe'')
                       @ [([CHR 0x0A] @ ''FIREHOSE FAILED WRITING 10x: closed pipe'' @ [CHR 0x0A],
                           0, Some ''closed pipe'')],
        file_writes = [(''/tmp/firehose_writer_failed_print.log'',
                        [CHR 0x0A] @ ''FIREHOSE FAILED WRITING 10x: closed pipe'' @ [CHR 0x0A])]\<rparr>)"
  by code_simp

lemma lucky_delivered:
  "delivered (replicate 9 (''FIRE a b'' @ [CHR 0x0A], 0, Some ''busy'')
                       @ [(''FIRE a b'' @ [CHR 0x0A], 9, None)]) = ''FIRE a b'' @ [CHR 0x0A]"
  by code_simp

lemma errstr_10_rendered:
  "errstr 10 e = [CHR 0x0A] @ ''FIREHOSE FAILED WRITING 10x: ''
                   @ (case e of None \<Rightarrow> ''%!s(<nil>)'' | Some m \<Rightarrow> m) @ [CHR 0x0A]"
  by (simp add: errstr_10 format_error_def)

lemma fallback_path_literal: "fallback_path = ''/tmp/firehose_writer_failed_print.log''"
  by (simp add: fallback_path_def)

text \<open>
  C4. For every line printed through \<open>DelegateToWriterPrinter\<close> on a sink that obeys
  the \<open>io.Writer\<close> contract (a reported count between 0 and the length handed in),
  the call returns without panic and one of two things has happened. Either some
  attempt among at most 10 completed the line: every attempt was handed the remainder
  the one before left, all but the last were short, the accepted bytes are the whole
  line, and the fallback file was not written. Or all 10 attempts were short: then
  exactly one write went to the file \<open>/tmp/firehose_writer_failed_print.log\<close>, of the
  message \<open>FIREHOSE FAILED WRITING 10x: \<close> followed by the text of the error of the
  last attempt, between two line feeds, and that message was written once more to the
  sink, as the eleventh and last write.
\<close>

theorem Print_retries_then_falls_back:
  assumes "obeys_contract wr"
  shows "\<exists>w'. Print wr input (fresh s) = (None, w') \<and>
     ((file_writes w' = [] \<and> sink_writes w' \<noteq> [] \<and> length (sink_writes w') \<le> 10
        \<and> chained (''FIRE '' @ Join input '' '' @ [CHR 0x0A]) (sink_writes w')
        \<and> list_all short_write (butlast (sink_writes w'))
        \<and> \<not> short_write (last (sink_writes w'))
        \<and> delivered (sink_writes w') = ''FIRE '' @ Join input '' '' @ [CHR 0x0A])
      \<or> (\<exists>att n e msg.
            length att = 10 \<and> chained (''FIRE '' @ Join input '' '' @ [CHR 0x0A]) att
            \<and> list_all short_write att
            \<and> msg = [CHR 0x0A] @ ''FIREHOSE FAILED WRITING 10x: ''
                      @ (case snd (snd (last att)) of None \<Rightarrow> ''%!s(<nil>)'' | Some m \<Rightarrow> m)
                      @ [CHR 0x0A]
            \<and> sink_writes w' = att @ [(msg, n, e)]
            \<and> file_writes w' = [(''/tmp/firehose_writer_failed_print.log'', msg)]))"
proof -
  from flushToFirehose_cases [OF assms, of "firehose_line input" s]
  obtain w' where run: "flushToFirehose wr (firehose_line input) (fresh s) = (None, w')"
    and cases: "(file_writes w' = [] \<and> sink_writes w' \<noteq> [] \<and> length (sink_writes w') \<le> 10
        \<and> chained (firehose_line input) (sink_writes w')
        \<and> list_all short_write (butlast (sink_writes w'))
        \<and> \<not> short_write (last (sink_writes w'))
        \<and> delivered (sink_writes w') = firehose_line input)
      \<or> (\<exists>att n e. sink_writes w' = att @ [(errstr 10 (snd (snd (last att))), n, e)]
            \<and> length att = 10 \<and> chained (firehose_line input) att \<and> list_all short_write att
            \<and> file_writes w' = [(fallback_path, errstr 10 (snd (snd (last att))))])"
    by blast
  from cases show ?thesis
  proof
    assume "file_writes w' = [] \<and> sink_writes w' \<noteq> [] \<and> length (sink_writes w') \<le> 10
        \<and> chained (firehose_line input) (sink_writes w')
        \<and> list_all short_write (butlast (sink_writes w'))
        \<and> \<not> short_write (last (sink_writes w'))
        \<and> delivered (sink_writes w') = firehose_line input"
    with run show ?thesis
      unfolding Print_def firehose_line_def by blast
  next
    assume "\<exists>att n e. sink_writes w' = att @ [(errstr 10 (snd (snd (last att))), n, e)]
            \<and> length att = 10 \<and> chained (firehose_line input) att \<and> list_all short_write att
            \<and> file_writes w' = [(fallback_path, errstr 10 (snd (snd (last att))))]"
    then obtain att n e where
      "sink_writes w' = att @ [(errstr 10 (snd (snd (last att))), n, e)]"
      "length att = 10" "chained (firehose_line input) att" "list_all short_write att"
      "file_writes w' = [(fallback_path, errstr 10 (snd (snd (last att))))]"
      by blast
    with run show ?thesis
      unfolding Print_def firehose_line_def errstr_10_rendered fallback_path_literal
      by blast
  qed
qed

text \<open>
  The two runs the claim names: a sink that accepts nothing on its first nine calls
  and everything on the tenth, and a sink that never accepts anything.
\<close>

theorem Print_retries_witness:
  "obeys_contract tenth_time_lucky
   \<and> Print tenth_time_lucky [''a'', ''b''] (fresh 0) =
       (None, \<lparr>sink = 10,
          sink_writes = replicate 9 (''FIRE a b'' @ [CHR 0x0A], 0, Some ''busy'')
                         @ [(''FIRE a b'' @ [CHR 0x0A], 9, None)],
          file_writes = []\<rparr>)
   \<and> delivered (sink_writes (snd (Print tenth_time_lucky [''a'', ''b''] (fresh 0))))
       = ''FIRE a b'' @ [CHR 0x0A]
   \<and> obeys_contract closed_pipe
   \<and> Print closed_pipe [''a'', ''b''] (fresh 0) =
       (None, \<lparr>sink = 11,
          sink_writes = replicate 10 (''FIRE a b'' @ [CHR 0x0A], 0, Some ''closed pipe'')
                         @ [([CHR 0x0A] @ ''FIREHOSE FAILED WRITING 10x: closed pipe''
                               @ [CHR 0x0A], 0, Some ''closed pipe'')],
          file_writes = [(''/tmp/firehose_writer_failed_print.log'',
                          [CHR 0x0A] @ ''FIREHOSE FAILED WRITING 10x: closed pipe''
                            @ [CHR 0x0A])]\<rparr>)"
proof -
  note lucky = Print_retries_then_falls_back [OF obeys_tenth, of "[''a'', ''b'']" 0]
  note closed = Print_retries_then_falls_back [OF obeys_closed, of "[''a'', ''b'']" 0]
  show ?thesis
    using lucky closed
    by (simp add: lucky_run closed_run lucky_delivered obeys_tenth obeys_closed)
qed

section \<open>Properties of the genesis header comparison report\<close>

lemma digit_value: "d < 10 \<Longrightarrow> of_char (digit d) - 48 = d"
proof -
  assume "d < 10"
  then have "d \<in> {0,1,2,3,4,5,6,7,8,9}" by (simp; arith)
  then show ?thesis by (auto simp: digit_def)
qed

lemma dec_value_snoc: "dec_value (s @ [c]) = dec_value s * 10 + (of_char c - 48)"
  by (simp add: dec_value_def)

lemma dec_value_FormatUint: "dec_value (FormatUint n) = n"
proof (induction n rule: FormatUint.induct)
  case (1 n)
  show ?case
  proof (cases "n < 10")
    case True
    then show ?thesis
      by (subst FormatUint.simps) (simp add: dec_value_def digit_value)
  next
    case False
    with 1 show ?thesis
      by (subst FormatUint.simps) (simp add: dec_value_snoc digit_value)
  qed
qed

lemma FormatUint_inject: "FormatUint m = FormatUint n \<longleftrightarrow> m = n"
  by (metis dec_value_FormatUint)

lemma FormatUint_unat_inject:
  "FormatUint (unat (a :: 64 word)) = FormatUint (unat b) \<longleftrightarrow> a = b"
  by (simp add: FormatUint_inject word_unat_eq_iff)

lemma compare_same: "fieldComparisonReporter f name x x = (''%s [(actual) %s %s %s (expected)]'', [name, f x, ''=='', f x])"
  by (simp add: fieldComparisonReporter_def Let_def)

lemma compare_GasUsed:
  "g \<noteq> e \<Longrightarrow> compareUint64 ''GasUsed'' g e
     = (''%s [(actual) %s %s %s (expected)]'', [''GasUsed'', FormatUint (unat g), ''!='', FormatUint (unat e)])"
  by (simp add: compareUint64_def fieldComparisonReporter_def FormatUint_unat_inject Let_def)

lemma compare_Hash:
  "compareHash c ''Hash'' (HeaderHash c a) (HeaderHash c e)
     = (''%s [(actual) %s %s %s (expected)]'',
        [''Hash'', HashString c (HeaderHash c a), hash_sign c a e, HashString c (HeaderHash c e)])"
  by (simp add: compareHash_def fieldComparisonReporter_def hash_sign_def Let_def)

lemma report_only_gasUsed_differs:
  assumes n: "Number expected = Some n" and g: "g \<noteq> GasUsed expected"
  shows "ReportHeaderComparisonResult c (expected\<lparr>GasUsed := g\<rparr>) expected =
    (report_preamble @
     [(''%s [(actual) %s %s %s (expected)]'',
        [''Hash'', HashString c (HeaderHash c (expected\<lparr>GasUsed := g\<rparr>)),
         hash_sign c (expected\<lparr>GasUsed := g\<rparr>) expected,
         HashString c (HeaderHash c expected)]),
      compareUint64 ''Number'' (BigUint64 n) (BigUint64 n),
      compareHash c ''ParentHash'' (ParentHash expected) (ParentHash expected),
      compareHash c ''UncleHash'' (UncleHash expected) (UncleHash expected),
      compareAddress c ''Coinbase'' (Coinbase expected) (Coinbase expected),
      compareHash c ''Root'' (Root expected) (Root expected),
      compareHash c ''TxHash'' (TxHash expected) (TxHash expected),
      compareHash c ''ReceiptHash'' (ReceiptHash expected) (ReceiptHash expected),
      compareBytes ''Bloom'' (Bloom expected) (Bloom expected),
      compareBigInt ''Difficulty'' (Difficulty expected) (Difficulty expected),
      compareUint64 ''GasLimit'' (GasLimit expected) (GasLimit expected),
      (''%s [(actual) %s %s %s (expected)]'',
        [''GasUsed'', FormatUint (unat g), ''!='', FormatUint (unat (GasUsed expected))]),
      compareUint64 ''Time'' (Time expected) (Time expected),
      compareBytes ''Extra'' (Extra expected) (Extra expected),
      compareHash c ''MixDigest'' (MixDigest expected) (MixDigest expected),
      compareUint64 ''Nonce'' (NonceUint64 (Nonce expected)) (NonceUint64 (Nonce expected)),
      ('''', [])],
     None)"
  using n g
  by (simp add: ReportHeaderComparisonResult_def compare_Hash compare_GasUsed)

lemma fields_marked_Nil: "fields_marked s [] = []"
  by (simp add: fields_marked_def)

lemma fields_marked_append: "fields_marked s (xs @ ys) = fields_marked s xs @ fields_marked s ys"
  by (simp add: fields_marked_def)

lemma fields_marked_message: "fields_marked s ((m, []) # r) = fields_marked s r"
  by (simp add: fields_marked_def)

lemma fields_marked_line:
  "fields_marked s ((fmt, [f, a, sg, e]) # r) = (if sg = s then [f] else []) @ fields_marked s r"
  by (simp add: fields_marked_def)

lemma fields_marked_preamble: "fields_marked s report_preamble = []"
  by (simp add: report_preamble_def fields_marked_message fields_marked_Nil)

lemma signs_differ: "''=='' \<noteq> ''!=''" "''!='' \<noteq> ''==''"
  by simp_all

lemma hash_sign_cases: "hash_sign c a e = ''=='' \<or> hash_sign c a e = ''!=''"
  by (simp add: hash_sign_def)

lemma mismatches_only_gasUsed_differs:
  assumes n: "Number expected = Some n" and g: "g \<noteq> GasUsed expected"
  shows "fields_marked ''!='' (fst (ReportHeaderComparisonResult c (expected\<lparr>GasUsed := g\<rparr>) expected))
     = (if hash_sign c (expected\<lparr>GasUsed := g\<rparr>) expected = ''!='' then [''Hash''] else []) @ [''GasUsed'']"
  unfolding report_only_gasUsed_differs [OF n g] fst_conv
    compareUint64_def compareHash_def compareBytes_def compareBigInt_def compareAddress_def
    compare_same fields_marked_append fields_marked_preamble
  by (simp only: fields_marked_line fields_marked_message fields_marked_Nil signs_differ
        if_False if_True append_Nil append_Nil2 refl)

lemma matches_only_gasUsed_differs:
  assumes n: "Number expected = Some n" and g: "g \<noteq> GasUsed expected"
  shows "fields_marked ''=='' (fst (ReportHeaderComparisonResult c (expected\<lparr>GasUsed := g\<rparr>) expected))
     = (if hash_sign c (expected\<lparr>GasUsed := g\<rparr>) expected = ''=='' then [''Hash''] else [])
       @ [''Number'', ''ParentHash'', ''UncleHash'', ''Coinbase'', ''Root'', ''TxHash'',
          ''ReceiptHash'', ''Bloom'', ''Difficulty'', ''GasLimit'', ''Time'', ''Extra'',
          ''MixDigest'', ''Nonce'']"
  unfolding report_only_gasUsed_differs [OF n g] fst_conv
    compareUint64_def compareHash_def compareBytes_def compareBigInt_def compareAddress_def
    compare_same fields_marked_append fields_marked_preamble
  by (simp only: fields_marked_line fields_marked_message fields_marked_Nil signs_differ
        if_False if_True append_Nil append_Nil2 refl append_Cons)


lemma EncodeToString_inject: "EncodeToString a = EncodeToString b \<longleftrightarrow> a = b"
  by (metis DecodeString_EncodeToString option.inject)

lemma genesis_Number: "Number genesis_header = Some 0"
  by (simp add: genesis_header_def)

lemma genesis_GasUsed: "(21000 :: 64 word) \<noteq> GasUsed genesis_header"
  by (simp add: genesis_header_def)

lemma genesis_hash_sign:
  "hash_sign reference_pkg (genesis_header\<lparr>GasUsed := 21000\<rparr>) genesis_header = ''!=''"
  by (simp add: hash_sign_def reference_pkg_def EncodeToString_inject field_digest_def
        genesis_header_def nat_bytes.simps)

text \<open>
  C5, as stated, fails: the first field the report compares is the header hash, which
  is computed from the whole header. With a header hash that tells the two headers
  apart, two lines carry \<open>!=\<close>, \<open>Hash\<close> and \<open>GasUsed\<close>.
\<close>

theorem report_marks_Hash_and_GasUsed:
  "fields_marked ''!=''
     (fst (ReportHeaderComparisonResult reference_pkg
             (genesis_header\<lparr>GasUsed := 21000\<rparr>) genesis_header))
   = [''Hash'', ''GasUsed'']"
  by (simp add: mismatches_only_gasUsed_differs [OF genesis_Number genesis_GasUsed]
        genesis_hash_sign)

text \<open>
  C5, amended. For every pair of headers that differ only in \<open>gasUsed\<close> (the expected
  header with any other value in that field; \<open>Number\<close> not nil, or the report panics
  after the \<open>Hash\<close> line), the report runs to its end, the \<open>GasUsed\<close> line carries
  \<open>!=\<close>, the lines of the fourteen other header fields carry \<open>==\<close>, and the \<open>Hash\<close>
  line, which compares the hashes of the two headers, carries \<open>!=\<close> unless the two
  hashes print the same.
\<close>

theorem report_when_only_gasUsed_differs:
  assumes "Number expected = Some n" and "g \<noteq> GasUsed expected"
  shows "snd (ReportHeaderComparisonResult c (expected\<lparr>GasUsed := g\<rparr>) expected) = None
    \<and> fields_marked ''!=''
          (fst (ReportHeaderComparisonResult c (expected\<lparr>GasUsed := g\<rparr>) expected))
        = (if hash_sign c (expected\<lparr>GasUsed := g\<rparr>) expected = ''!='' then [''Hash''] else [])
          @ [''GasUsed'']
    \<and> fields_marked ''==''
          (fst (ReportHeaderComparisonResult c (expected\<lparr>GasUsed := g\<rparr>) expected))
        = (if hash_sign c (expected\<lparr>GasUsed := g\<rparr>) expected = ''=='' then [''Hash''] else [])
          @ [''Number'', ''ParentHash'', ''UncleHash'', ''Coinbase'', ''Root'', ''TxHash'',
             ''ReceiptHash'', ''Bloom'', ''Difficulty'', ''GasLimit'', ''Time'', ''Extra'',
             ''MixDigest'', ''Nonce'']
    \<and> (''%s [(actual) %s %s %s (expected)]'',
          [''GasUsed'', FormatUint (unat g), ''!='', FormatUint (unat (GasUsed expected))])
        \<in> set (fst (ReportHeaderComparisonResult c (expected\<lparr>GasUsed := g\<rparr>) expected))"
proof -
  have "snd (ReportHeaderComparisonResult c (expected\<lparr>GasUsed := g\<rparr>) expected) = None"
    by (simp add: report_only_gasUsed_differs [OF assms])
  moreover have "(''%s [(actual) %s %s %s (expected)]'',
          [''GasUsed'', FormatUint (unat g), ''!='', FormatUint (unat (GasUsed expected))])
        \<in> set (fst (ReportHeaderComparisonResult c (expected\<lparr>GasUsed := g\<rparr>) expected))"
    by (simp add: report_only_gasUsed_differs [OF assms])
  ultimately show ?thesis
    using mismatches_only_gasUsed_differs [OF assms, of c]
      matches_only_gasUsed_differs [OF assms, of c]
    by simp
qed

theorem report_when_only_gasUsed_differs_witness:
  "Number genesis_header = Some 0
   \<and> (21000 :: 64 word) \<noteq> GasUsed genesis_header
   \<and> snd (ReportHeaderComparisonResult reference_pkg
             (genesis_header\<lparr>GasUsed := 21000\<rparr>) genesis_header) = None
   \<and> fields_marked ''==''
        (fst (ReportHeaderComparisonResult reference_pkg
                (genesis_header\<lparr>GasUsed := 21000\<rparr>) genesis_header))
      = [''Number'', ''ParentHash'', ''UncleHash'', ''Coinbase'', ''Root'', ''TxHash'',
         ''ReceiptHash'', ''Bloom'', ''Difficulty'', ''GasLimit'', ''Time'', ''Extra'',
         ''MixDigest'', ''Nonce'']"
  using report_when_only_gasUsed_differs [OF genesis_Number genesis_GasUsed, of reference_pkg]
    genesis_Number genesis_GasUsed
  by (simp add: genesis_hash_sign)

section \<open>Properties of block processing\<close>

lemma calls_record_call: "calls (record_call c x st) = calls st @ [(c, x)]"
  by (simp add: record_call_def)

lemma usedGas_record_call: "usedGas (record_call c x st) = usedGas st"
  by (simp add: record_call_def)

lemma ApplyTransaction_applies:
  assumes "applies tx" and "Enabled tc"
  shows "\<exists>receipt st'. ApplyTransaction tc i tx st = (Inr receipt, st')
           \<and> calls st' = calls st @ [(ref tc, RecordTrxFrom i), (ref tc, ApplyMessage i)]"
  using assms by (simp add: ApplyTransaction_def applies_def Let_def calls_record_call)

lemma ApplyTransaction_fails:
  assumes "\<not> applies tx" and "Enabled tc"
  shows "\<exists>st'. ApplyTransaction tc i tx st = (Inl (abort_error tx), st')
           \<and> calls st' = calls st @
                (if AsMessage_err tx = None
                 then [(ref tc, RecordTrxFrom i), (ref tc, ApplyMessage i)] else [])"
  using assms
  by (auto simp: ApplyTransaction_def applies_def Let_def calls_record_call abort_error_def
      split: option.splits)

lemma applied_Nil: "applied [] = 0"
  by (simp add: applied_def)

lemma applied_Cons: "applied (tx # txs) = (if applies tx then Suc (applied txs) else 0)"
  by (simp add: applied_def)

lemma applied_le: "applied txs \<le> length txs"
  by (simp add: applied_def length_takeWhile_le)

lemma applies_nth_applied: "i < applied txs \<Longrightarrow> applies (txs ! i)"
  unfolding applied_def by (metis nth_length_takeWhile takeWhile_nth length_takeWhile_le
      nth_mem set_takeWhileD order_less_le_trans)

lemma not_applies_at_applied: "applied txs < length txs \<Longrightarrow> \<not> applies (txs ! applied txs)"
  unfolding applied_def by (rule nth_length_takeWhile)

lemma loop_enabled:
  assumes "Enabled tc"
  shows "calls (snd (process_transactions fc tc i txs rs st))
           = calls st @ concat (map (applied_calls (ref fc) (ref tc)) [i..<i + applied txs])
             @ (if applied txs < length txs
                then aborted_calls (ref tc) (i + applied txs) (txs ! applied txs) else [])
       \<and> (case fst (process_transactions fc tc i txs rs st) of
            Inl err \<Rightarrow> applied txs < length txs \<and> err = abort_error (txs ! applied txs)
          | Inr rs' \<Rightarrow> applied txs = length txs)"
proof (induction txs arbitrary: i rs st)
  case Nil
  show ?case by (simp add: applied_Nil)
next
  case (Cons tx txs)
  let ?st1 = "record_call (ref tc) (StartTransaction i) st"
  show ?case
  proof (cases "applies tx")
    case True
    from ApplyTransaction_applies [OF True assms, of i ?st1]
    obtain receipt st2 where ap: "ApplyTransaction tc i tx ?st1 = (Inr receipt, st2)"
      and c2: "calls st2 = calls ?st1 @ [(ref tc, RecordTrxFrom i), (ref tc, ApplyMessage i)]"
      by blast
    let ?st3 = "record_call (ref fc) (FlushTransaction i)
                  (record_call (ref tc) (EndTransaction i) st2)"
    have step: "process_transactions fc tc i (tx # txs) rs st
                = process_transactions fc tc (i + 1) txs (rs @ [receipt]) ?st3"
      using assms ap by (simp add: Let_def)
    have c3: "calls ?st3 = calls st @ applied_calls (ref fc) (ref tc) i"
      using c2 by (simp add: calls_record_call applied_calls_def)
    define R where "R = [i + 1..<i + 1 + applied txs]"
    have A: "[i..<i + applied (tx # txs)] = i # R"
      using True by (simp add: applied_Cons upt_conv_Cons R_def del: upt_Suc)
    have B: "(applied (tx # txs) < length (tx # txs)) = (applied txs < length txs)"
      using True by (simp add: applied_Cons)
    have C: "i + applied (tx # txs) = i + 1 + applied txs"
      using True by (simp add: applied_Cons)
    have D: "(tx # txs) ! applied (tx # txs) = txs ! applied txs"
      using True by (simp add: applied_Cons)
    have E: "(applied (tx # txs) = length (tx # txs)) = (applied txs = length txs)"
      using True by (simp add: applied_Cons)
    note ih = Cons.IH [of "i + 1" "rs @ [receipt]" ?st3, folded R_def]
    have calls_eq: "calls (snd (process_transactions fc tc i (tx # txs) rs st))
           = calls st @ concat (map (applied_calls (ref fc) (ref tc)) [i..<i + applied (tx # txs)])
             @ (if applied (tx # txs) < length (tx # txs)
                then aborted_calls (ref tc) (i + applied (tx # txs))
                       ((tx # txs) ! applied (tx # txs)) else [])"
      unfolding step A unfolding B C D using ih c3 by simp
    have res_eq: "(case fst (process_transactions fc tc i (tx # txs) rs st) of
            Inl err \<Rightarrow> applied (tx # txs) < length (tx # txs)
                         \<and> err = abort_error ((tx # txs) ! applied (tx # txs))
          | Inr rs' \<Rightarrow> applied (tx # txs) = length (tx # txs))"
      unfolding step B D E using ih by simp
    from calls_eq res_eq show ?thesis by (rule conjI)
  next
    case False
    from ApplyTransaction_fails [OF False assms, of i ?st1]
    obtain st2 where ap: "ApplyTransaction tc i tx ?st1 = (Inl (abort_error tx), st2)"
      and c2: "calls st2 = calls ?st1 @
                (if AsMessage_err tx = None
                 then [(ref tc, RecordTrxFrom i), (ref tc, ApplyMessage i)] else [])"
      by blast
    have step: "process_transactions fc tc i (tx # txs) rs st = (Inl (abort_error tx), st2)"
      using assms ap by (simp add: Let_def)
    show ?thesis
      using False c2 unfolding step applied_Cons
      by (simp add: calls_record_call aborted_calls_def)
  qed
qed


lemma ApplyTransaction_no_finalize:
  "filter (\<lambda>e. snd e = FinalizeBlock) (calls (snd (ApplyTransaction tc i tx st)))
     = filter (\<lambda>e. snd e = FinalizeBlock) (calls st)"
  by (simp add: ApplyTransaction_def Let_def calls_record_call split: option.splits)

lemma ApplyTransaction_result: "isl (fst (ApplyTransaction tc i tx st)) \<longleftrightarrow> \<not> applies tx"
  by (simp add: ApplyTransaction_def Let_def applies_def split: option.splits)

lemma loop_finalize_free:
  "filter (\<lambda>e. snd e = FinalizeBlock) (calls (snd (process_transactions fc tc i txs rs st)))
     = filter (\<lambda>e. snd e = FinalizeBlock) (calls st)
   \<and> (isl (fst (process_transactions fc tc i txs rs st)) \<longleftrightarrow> applied txs < length txs)"
proof (induction txs arbitrary: i rs st)
  case Nil
  show ?case by (simp add: applied_Nil)
next
  case (Cons tx txs)
  define st1 where "st1 = (if Enabled tc then record_call (ref tc) (StartTransaction i) st else st)"
  have f1: "filter (\<lambda>e. snd e = FinalizeBlock) (calls st1)
              = filter (\<lambda>e. snd e = FinalizeBlock) (calls st)"
    by (simp add: st1_def calls_record_call)
  obtain r st2 where ap: "ApplyTransaction tc i tx st1 = (r, st2)"
    by (cases "ApplyTransaction tc i tx st1")
  have f2: "filter (\<lambda>e. snd e = FinalizeBlock) (calls st2)
              = filter (\<lambda>e. snd e = FinalizeBlock) (calls st)"
    using ApplyTransaction_no_finalize [of tc i tx st1] ap f1 by simp
  have r: "isl r \<longleftrightarrow> \<not> applies tx"
    using ApplyTransaction_result [of tc i tx st1] ap by simp
  show ?case
  proof (cases r)
    case (Inl err)
    with r have "\<not> applies tx" by simp
    moreover have "process_transactions fc tc i (tx # txs) rs st = (Inl err, st2)"
      using ap Inl by (simp add: st1_def Let_def)
    ultimately show ?thesis using f2 by (simp add: applied_Cons)
  next
    case (Inr receipt)
    with r have ok: "applies tx" by simp
    define st3 where "st3 = (if Enabled tc
                         then record_call (ref fc) (FlushTransaction i)
                                (record_call (ref tc) (EndTransaction i) st2)
                         else st2)"
    have f3: "filter (\<lambda>e. snd e = FinalizeBlock) (calls st3)
              = filter (\<lambda>e. snd e = FinalizeBlock) (calls st)"
      using f2 by (simp add: st3_def calls_record_call)
    have step: "process_transactions fc tc i (tx # txs) rs st
                 = process_transactions fc tc (i + 1) txs (rs @ [receipt]) st3"
      using ap Inr by (simp add: st1_def st3_def Let_def)
    show ?thesis
      unfolding step using Cons.IH [of "i + 1" "rs @ [receipt]" st3] f3 ok
      by (simp add: applied_Cons)
  qed
qed

lemma Process_enabled_calls:
  assumes "Enabled fc"
  shows "calls (snd (Process config fc txs))
     = (ref fc, StartBlock) # map (Pair (ref fc)) (dao_calls config)
       @ [(Speculative, NewSpeculativeExecutionContextWithBuffer)]
       @ concat (map (applied_calls (ref fc) Speculative) [0..<applied txs])
       @ (if applied txs < length txs
          then aborted_calls Speculative (applied txs) (txs ! applied txs)
          else [(ref fc, FinalizeBlock), (ref fc, EngineFinalize)])"
    and "applied txs < length txs \<longrightarrow>
           fst (Process config fc txs) = Inl (abort_error (txs ! applied txs))"
    and "isl (fst (Process config fc txs)) \<longleftrightarrow> applied txs < length txs"
proof -
  define st3 where "st3 = record_call Speculative NewSpeculativeExecutionContextWithBuffer
      (if DAOForkSupport config \<and> DAOForkBlock config \<noteq> None
            \<and> DAOForkBlock config = Some (BlockNumber config)
       then record_call (ref fc) ApplyDAOHardFork
              (record_call (ref fc) StartBlock \<lparr>calls = [], usedGas = 0\<rparr>)
       else record_call (ref fc) StartBlock \<lparr>calls = [], usedGas = 0\<rparr>)"
  have c3: "calls st3 = (ref fc, StartBlock) # map (Pair (ref fc)) (dao_calls config)
       @ [(Speculative, NewSpeculativeExecutionContextWithBuffer)]"
    by (auto simp: st3_def calls_record_call dao_calls_def)
  have spec: "Enabled speculative_context" "ref speculative_context = Speculative"
    by (simp_all add: speculative_context_def)
  note loop = loop_enabled [OF spec(1), of fc 0 txs "[]" st3, unfolded spec(2), simplified]
  obtain r st4 where pt: "process_transactions fc speculative_context 0 txs [] st3 = (r, st4)"
    by (cases "process_transactions fc speculative_context 0 txs [] st3")
  have P: "Process config fc txs =
     (case r of Inl err \<Rightarrow> (Inl err, st4)
      | Inr receipts \<Rightarrow>
          (Inr (receipts, usedGas st4),
           record_call (ref fc) EngineFinalize (record_call (ref fc) FinalizeBlock st4)))"
    using assms pt
    by (cases "DAOForkSupport config \<and> DAOForkBlock config \<noteq> None
            \<and> DAOForkBlock config = Some (BlockNumber config)")
       (simp_all add: Process_def Let_def st3_def spec usedGas_record_call split: sum.splits)
  show "calls (snd (Process config fc txs))
     = (ref fc, StartBlock) # map (Pair (ref fc)) (dao_calls config)
       @ [(Speculative, NewSpeculativeExecutionContextWithBuffer)]
       @ concat (map (applied_calls (ref fc) Speculative) [0..<applied txs])
       @ (if applied txs < length txs
          then aborted_calls Speculative (applied txs) (txs ! applied txs)
          else [(ref fc, FinalizeBlock), (ref fc, EngineFinalize)])"
    using loop pt c3 unfolding P
    by (cases r) (auto simp: calls_record_call)
  show "applied txs < length txs \<longrightarrow>
           fst (Process config fc txs) = Inl (abort_error (txs ! applied txs))"
    using loop pt unfolding P
    by (cases r) auto
  show "isl (fst (Process config fc txs)) \<longleftrightarrow> applied txs < length txs"
    using loop pt unfolding P
    by (cases r) auto
qed


lemma calls_on_append: "calls_on c (xs @ ys) = calls_on c xs @ calls_on c ys"
  by (simp add: calls_on_def)

lemma calls_on_applied:
  "calls_on Canonical (concat (map (applied_calls Canonical Speculative) js))
     = map FlushTransaction js"
  by (induction js) (simp_all add: calls_on_def applied_calls_def)

lemma calls_on_aborted: "calls_on Canonical (aborted_calls Speculative j tx) = []"
  by (simp add: calls_on_def aborted_calls_def)

lemma calls_on_dao: "calls_on Canonical (map (Pair Canonical) xs) = xs"
  by (induction xs) (simp_all add: calls_on_def)

lemma flush_in_applied:
  "(Canonical, FlushTransaction i) \<in> set (concat (map (applied_calls Canonical Speculative) js))
     \<longleftrightarrow> i \<in> set js"
  by (induction js) (auto simp: applied_calls_def)

lemma flush_not_in_aborted:
  "(Canonical, FlushTransaction i) \<notin> set (aborted_calls Speculative j tx)"
  by (simp add: aborted_calls_def)

lemma flush_not_in_dao:
  "(Canonical, FlushTransaction i) \<notin> set (map (Pair Canonical) (dao_calls config))"
  by (auto simp: dao_calls_def)

lemma flush_in_applied_one:
  "(Canonical, FlushTransaction i) \<in> set (applied_calls Canonical Speculative x) \<longleftrightarrow> i = x"
  by (auto simp: applied_calls_def)

lemma flush_not_in_dao_image:
  "(Canonical, FlushTransaction i) \<notin> Pair Canonical ` set (dao_calls config)"
  by (auto simp: dao_calls_def)

lemma calls_on_Nil: "calls_on c [] = []"
  by (simp add: calls_on_def)

lemma calls_on_Cons: "calls_on c ((d, x) # r) = (if d = c then [x] else []) @ calls_on c r"
  by (simp add: calls_on_def)

lemma last_aborted: "fst (last (aborted_calls Speculative j tx)) = Speculative"
  by (simp add: aborted_calls_def)

lemma aborted_nonempty: "aborted_calls c j tx \<noteq> []"
  by (simp add: aborted_calls_def)

lemma applies_iff_before_applied:
  assumes "i < length txs" and "i \<le> applied txs"
  shows "applies (txs ! i) \<longleftrightarrow> i < applied txs"
proof (cases "i < applied txs")
  case True
  then show ?thesis by (simp add: applies_nth_applied)
next
  case False
  with assms have "i = applied txs" "applied txs < length txs" by simp_all
  then show ?thesis using not_applies_at_applied [of txs] by simp
qed

text \<open>
  C1. When \<open>Process\<close> runs with the firehose context enabled, the transactions before
  the first one whose \<open>ApplyTransaction\<close> returns an error are each flushed into the
  canonical context, and nothing else of a transaction reaches that context: the
  calls on it are \<open>StartBlock\<close>, the DAO fork, one \<open>FlushTransaction\<close> per applied
  transaction and, when none failed, the end of the block. So a transaction that was
  processed is flushed if and only if its \<open>ApplyTransaction\<close> returned nil. When one
  returns an error, \<open>Process\<close> returns that error at once: the last call of the run is
  one of the aborted transaction on the speculative context, never a flush.
\<close>

theorem Process_flushes_iff_applied:
  assumes "Enabled fc" and "ref fc = Canonical"
  shows "calls_on Canonical (calls (snd (Process config fc txs)))
           = StartBlock # dao_calls config @ map FlushTransaction [0..<applied txs]
             @ (if applied txs < length txs then [] else [FinalizeBlock, EngineFinalize])
       \<and> (\<forall>i. (Canonical, FlushTransaction i) \<in> set (calls (snd (Process config fc txs)))
                \<longleftrightarrow> i < applied txs)
       \<and> (\<forall>i. i < length txs \<and> i \<le> applied txs \<longrightarrow>
             ((Canonical, FlushTransaction i) \<in> set (calls (snd (Process config fc txs)))
                \<longleftrightarrow> applies (txs ! i)))
       \<and> (applied txs < length txs \<longrightarrow>
             fst (Process config fc txs) = Inl (abort_error (txs ! applied txs))
             \<and> fst (last (calls (snd (Process config fc txs)))) = Speculative)"
proof -
  note run = Process_enabled_calls [OF assms(1), where config = config and txs = txs,
      unfolded assms(2)]
  have on: "calls_on Canonical (calls (snd (Process config fc txs)))
           = StartBlock # dao_calls config @ map FlushTransaction [0..<applied txs]
             @ (if applied txs < length txs then [] else [FinalizeBlock, EngineFinalize])"
    unfolding run(1)
    by (simp add: calls_on_append calls_on_applied calls_on_aborted calls_on_dao
          calls_on_Cons calls_on_Nil del: upt_Suc)
  have mem: "(Canonical, FlushTransaction i) \<in> set (calls (snd (Process config fc txs)))
                \<longleftrightarrow> i < applied txs" for i
    unfolding run(1)
    by (simp add: flush_in_applied_one flush_not_in_aborted flush_not_in_dao_image
          del: upt_Suc)
  have iff: "i < length txs \<and> i \<le> applied txs \<longrightarrow>
             ((Canonical, FlushTransaction i) \<in> set (calls (snd (Process config fc txs)))
                \<longleftrightarrow> applies (txs ! i))" for i
    using mem [of i] applies_iff_before_applied [of i txs] by blast
  have abort: "applied txs < length txs \<longrightarrow>
             fst (Process config fc txs) = Inl (abort_error (txs ! applied txs))
             \<and> fst (last (calls (snd (Process config fc txs)))) = Speculative"
  proof
    assume a: "applied txs < length txs"
    then have "fst (Process config fc txs) = Inl (abort_error (txs ! applied txs))"
      using run(2) by simp
    moreover have "fst (last (calls (snd (Process config fc txs)))) = Speculative"
      unfolding run(1) using a by (simp add: aborted_nonempty last_aborted del: upt_Suc)
    ultimately show "fst (Process config fc txs) = Inl (abort_error (txs ! applied txs))
             \<and> fst (last (calls (snd (Process config fc txs)))) = Speculative" ..
  qed
  from on mem iff abort show ?thesis by blast
qed


lemma canonical_context_simps:
  "Enabled canonical_context" "ref canonical_context = Canonical"
  by (simp_all add: canonical_context_def)

lemma disabled_context_simps:
  "\<not> Enabled disabled_context" "ref disabled_context = Canonical"
  by (simp_all add: disabled_context_def)

lemma applies_good: "applies good_tx"
  by (simp add: applies_def good_tx_def)

lemma applies_bad: "\<not> applies bad_tx"
  by (simp add: applies_def bad_tx_def)

lemma abort_error_bad: "abort_error bad_tx = ''nonce too low''"
  by (simp add: abort_error_def bad_tx_def)

lemma dao_calls_plain: "dao_calls (plain_config\<lparr>BlockProgressEnabled := b\<rparr>) = []"
  "dao_calls plain_config = []"
  by (simp_all add: dao_calls_def plain_config_def)

theorem Process_flushes_witness:
  "Enabled canonical_context \<and> ref canonical_context = Canonical
   \<and> applied [good_tx, bad_tx, good_tx] = 1
   \<and> calls_on Canonical (calls (snd (Process plain_config canonical_context
                                        [good_tx, bad_tx, good_tx])))
       = [StartBlock, FlushTransaction 0]
   \<and> fst (Process plain_config canonical_context [good_tx, bad_tx, good_tx])
       = Inl ''nonce too low''
   \<and> fst (last (calls (snd (Process plain_config canonical_context
                               [good_tx, bad_tx, good_tx])))) = Speculative"
  using Process_flushes_iff_applied [OF canonical_context_simps,
          of plain_config "[good_tx, bad_tx, good_tx]"]
  by (simp add: canonical_context_simps applied_Cons applied_Nil applies_good applies_bad
        abort_error_bad dao_calls_plain)

text \<open>
  C7. When every transaction of the block applies, \<open>Process\<close> makes exactly one
  \<open>FinalizeBlock\<close> call if the firehose context is enabled, on that context;
  otherwise exactly one if \<open>BlockProgressEnabled\<close> is set, on the sync context;
  otherwise none. In each case the block is processed to its end.
\<close>

theorem Process_finalizes_block:
  assumes "applied txs = length txs"
  shows "filter (\<lambda>e. snd e = FinalizeBlock) (calls (snd (Process config fc txs)))
           = (if Enabled fc then [(ref fc, FinalizeBlock)]
              else if BlockProgressEnabled config then [(Sync, FinalizeBlock)]
              else [])
       \<and> \<not> isl (fst (Process config fc txs))"
proof -
  define tc where "tc = (if Enabled fc then speculative_context else fc)"
  define st1 where "st1 = (if Enabled fc
                 then record_call (ref fc) StartBlock \<lparr>calls = [], usedGas = 0\<rparr>
                 else \<lparr>calls = [], usedGas = 0\<rparr>)"
  define st2 where "st2 = (if DAOForkSupport config \<and> DAOForkBlock config \<noteq> None
                    \<and> DAOForkBlock config = Some (BlockNumber config)
                 then record_call (ref fc) ApplyDAOHardFork st1 else st1)"
  define st3 where "st3 = (if Enabled fc
                 then record_call (ref tc) NewSpeculativeExecutionContextWithBuffer st2
                 else st2)"
  have f3: "filter (\<lambda>e. snd e = FinalizeBlock) (calls st3) = []"
    by (simp add: st3_def st2_def st1_def calls_record_call)
  obtain r st4 where pt: "process_transactions fc tc 0 txs [] st3 = (r, st4)"
    by (cases "process_transactions fc tc 0 txs [] st3")
  from loop_finalize_free [of fc tc 0 txs "[]" st3] pt f3 assms
  have f4: "filter (\<lambda>e. snd e = FinalizeBlock) (calls st4) = []" and "\<not> isl r"
    by simp_all
  then obtain receipts where r: "r = Inr receipts"
    by (cases r) simp_all
  define st5 where "st5 = (if Enabled fc
                         then record_call (ref fc) FinalizeBlock st4
                         else if BlockProgressEnabled config
                         then record_call Sync FinalizeBlock st4
                         else st4)"
  have P: "Process config fc txs
             = (Inr (receipts, usedGas (record_call (ref fc) EngineFinalize st5)),
                record_call (ref fc) EngineFinalize st5)"
    using pt r
    unfolding Process_def Let_def st5_def st3_def st2_def st1_def tc_def
    by simp
  show ?thesis
    unfolding P using f4
    by (simp add: st5_def calls_record_call)
qed

theorem Process_finalizes_witness:
  "applied [good_tx, good_tx] = length [good_tx, good_tx]
   \<and> filter (\<lambda>e. snd e = FinalizeBlock)
        (calls (snd (Process plain_config canonical_context [good_tx, good_tx])))
       = [(Canonical, FinalizeBlock)]
   \<and> filter (\<lambda>e. snd e = FinalizeBlock)
        (calls (snd (Process (plain_config\<lparr>BlockProgressEnabled := True\<rparr>) disabled_context
                       [good_tx, good_tx])))
       = [(Sync, FinalizeBlock)]
   \<and> filter (\<lambda>e. snd e = FinalizeBlock)
        (calls (snd (Process plain_config disabled_context [good_tx, good_tx])))
       = []"
proof -
  have all: "applied [good_tx, good_tx] = length [good_tx, good_tx]"
    by (simp add: applied_Cons applied_Nil applies_good)
  show ?thesis
    using all
      Process_finalizes_block [OF all, of plain_config canonical_context]
      Process_finalizes_block [OF all, of "plain_config\<lparr>BlockProgressEnabled := True\<rparr>"
        disabled_context]
      Process_finalizes_block [OF all, of plain_config disabled_context]
    by (simp add: canonical_context_simps disabled_context_simps plain_config_def)
qed


lemma creation_not_in_applied:
  "filter (\<lambda>e. snd e = NewSpeculativeExecutionContextWithBuffer)
     (concat (map (applied_calls f t) js)) = []"
  by (induction js) (simp_all add: applied_calls_def)

lemma creation_not_in_aborted:
  "filter (\<lambda>e. snd e = NewSpeculativeExecutionContextWithBuffer) (aborted_calls t j tx) = []"
  by (simp add: aborted_calls_def)

lemma creation_not_in_dao:
  "filter (\<lambda>e. snd e = NewSpeculativeExecutionContextWithBuffer)
     (map (Pair c) (dao_calls config)) = []"
  by (simp add: dao_calls_def)

lemma takeWhile_dao:
  "takeWhile (\<lambda>e. snd e \<noteq> NewSpeculativeExecutionContextWithBuffer)
     (map (Pair c) (dao_calls config) @ (Speculative, NewSpeculativeExecutionContextWithBuffer) # r)
   = map (Pair c) (dao_calls config)"
  by (simp add: dao_calls_def)

lemma scoped_in_applied:
  "e \<in> set (concat (map (applied_calls Canonical Speculative) js)) \<Longrightarrow>
     transaction_scoped (snd e) \<Longrightarrow> fst e = Speculative"
  by (induction js) (auto simp: applied_calls_def)

lemma scoped_in_aborted:
  "e \<in> set (aborted_calls Speculative j tx) \<Longrightarrow> fst e = Speculative"
  by (auto simp: aborted_calls_def split: if_splits)

lemma scoped_in_dao:
  "e \<in> set (map (Pair c) (dao_calls config)) \<Longrightarrow> \<not> transaction_scoped (snd e)"
  by (auto simp: dao_calls_def split: if_splits)

text \<open>
  C8, as stated, fails: the speculative context is not created before each
  transaction. In a block of two transactions it is created once, ahead of the loop;
  the second transaction starts right after the flush of the first, on the same
  context.
\<close>

theorem Process_two_transactions_one_context:
  "calls (snd (Process plain_config canonical_context [good_tx, good_tx]))
   = [(Canonical, StartBlock),
      (Speculative, NewSpeculativeExecutionContextWithBuffer),
      (Speculative, StartTransaction 0), (Speculative, RecordTrxFrom 0),
      (Speculative, ApplyMessage 0), (Speculative, EndTransaction 0),
      (Canonical, FlushTransaction 0),
      (Speculative, StartTransaction 1), (Speculative, RecordTrxFrom 1),
      (Speculative, ApplyMessage 1), (Speculative, EndTransaction 1),
      (Canonical, FlushTransaction 1),
      (Canonical, FinalizeBlock), (Canonical, EngineFinalize)]"
  unfolding Process_enabled_calls(1) [OF canonical_context_simps(1)]
  by (simp add: canonical_context_simps applied_Cons applied_Nil applies_good dao_calls_plain
        applied_calls_def)

text \<open>
  The effect of a run on the buffer: what the calls ahead of the loop, the calls of an
  applied transaction, those of an aborted one and those that end the block do to it.
\<close>

lemma buffer_foldl_Print:
  "buffer (foldl ToBufferPrinter_Print p ls) = buffer p @ concat (map firehose_line ls)"
  by (induction ls arbitrary: p) (simp_all add: ToBufferPrinter_Print_def)

lemma replay_Nil: "replay emits s [] = s"
  by (simp add: replay_def)

lemma replay_Cons: "replay emits s (e # log) = replay emits (perform emits s e) log"
  by (simp add: replay_def)

lemma replay_append: "replay emits s (xs @ ys) = replay emits (replay emits s xs) ys"
  by (simp add: replay_def)

lemma buffer_at_starts_append:
  "buffer_at_starts emits s (xs @ ys)
     = buffer_at_starts emits s xs @ buffer_at_starts emits (replay emits s xs) ys"
  by (induction xs arbitrary: s) (simp_all add: replay_Nil replay_Cons)

lemma perform_creation:
  "buffer (txPrinter (perform emits s (c, NewSpeculativeExecutionContextWithBuffer))) = []"
  "flushed (perform emits s (c, NewSpeculativeExecutionContextWithBuffer)) = flushed s"
  by (simp_all add: perform_def NewToBufferPrinterWithBuffer_def)

lemma perform_canonical:
  "x \<in> {StartBlock, ApplyDAOHardFork, FinalizeBlock, EngineFinalize} \<Longrightarrow>
     perform emits s (Canonical, x) = s"
  by (auto simp: perform_def)

lemma replay_dao: "replay emits s (map (Pair Canonical) (dao_calls config)) = s"
  by (simp add: dao_calls_def replay_Nil replay_Cons perform_canonical)

lemma starts_dao: "buffer_at_starts emits s (map (Pair Canonical) (dao_calls config)) = []"
  by (simp add: dao_calls_def)

lemma replay_applied:
  assumes "buffer (txPrinter s) = []"
  shows "buffer (txPrinter (replay emits s (applied_calls Canonical Speculative j))) = []"
    and "flushed (replay emits s (applied_calls Canonical Speculative j))
           = flushed s @ [recorded emits j]"
    and "buffer_at_starts emits s (applied_calls Canonical Speculative j) = [(j, [])]"
  using assms
  by (simp_all add: applied_calls_def replay_Cons replay_Nil perform_def buffer_foldl_Print
        ToBufferPrinter_Reset_def recorded_def)

lemma replay_applied_all:
  assumes "buffer (txPrinter s) = []"
  shows "buffer (txPrinter (replay emits s
            (concat (map (applied_calls Canonical Speculative) js)))) = []
       \<and> flushed (replay emits s (concat (map (applied_calls Canonical Speculative) js)))
           = flushed s @ map (recorded emits) js
       \<and> buffer_at_starts emits s (concat (map (applied_calls Canonical Speculative) js))
           = map (\<lambda>i. (i, [])) js"
  using assms
proof (induction js arbitrary: s)
  case Nil
  then show ?case by (simp add: replay_Nil)
next
  case (Cons j js)
  note one = replay_applied [OF Cons.prems, of emits j]
  from Cons.IH [OF one(1)] one show ?case
    by (simp add: replay_append buffer_at_starts_append)
qed

lemma replay_aborted:
  assumes "buffer (txPrinter s) = []"
  shows "flushed (replay emits s (aborted_calls Speculative j tx)) = flushed s"
    and "buffer_at_starts emits s (aborted_calls Speculative j tx) = [(j, [])]"
  using assms
  by (simp_all add: aborted_calls_def replay_Cons replay_Nil perform_def)


lemma replay_ahead:
  "buffer (txPrinter (replay emits s
      ((Canonical, StartBlock) # map (Pair Canonical) (dao_calls config)
         @ [(Speculative, NewSpeculativeExecutionContextWithBuffer)]))) = []"
  "flushed (replay emits s
      ((Canonical, StartBlock) # map (Pair Canonical) (dao_calls config)
         @ [(Speculative, NewSpeculativeExecutionContextWithBuffer)])) = flushed s"
  "buffer_at_starts emits s
      ((Canonical, StartBlock) # map (Pair Canonical) (dao_calls config)
         @ [(Speculative, NewSpeculativeExecutionContextWithBuffer)]) = []"
  by (simp_all add: replay_Cons replay_append replay_Nil replay_dao perform_canonical
        perform_creation buffer_at_starts_append starts_dao)

lemma replay_end:
  "flushed (replay emits s [(Canonical, FinalizeBlock), (Canonical, EngineFinalize)]) = flushed s"
  "buffer_at_starts emits s [(Canonical, FinalizeBlock), (Canonical, EngineFinalize)] = []"
  by (simp_all add: replay_Cons replay_Nil perform_canonical)

lemma started_count:
  "min (length txs) (Suc (applied txs))
     = (if applied txs < length txs then Suc (applied txs) else applied txs)"
  using applied_le [of txs] by (auto simp: min_def)

lemma started_upt:
  "[0..<min (length txs) (Suc (applied txs))]
     = [0..<applied txs] @ (if applied txs < length txs then [applied txs] else [])"
  unfolding started_count by simp

lemma Process_replay:
  assumes "Enabled fc" and "ref fc = Canonical"
  shows "buffer_at_starts emits s (calls (snd (Process config fc txs)))
           = map (\<lambda>i. (i, [])) [0..<min (length txs) (Suc (applied txs))]"
    and "flushed (replay emits s (calls (snd (Process config fc txs))))
           = flushed s @ map (recorded emits) [0..<applied txs]"
proof -
  define ahead where "ahead = (Canonical, StartBlock) # map (Pair Canonical) (dao_calls config)
         @ [(Speculative, NewSpeculativeExecutionContextWithBuffer)]"
  define loop where "loop = concat (map (applied_calls Canonical Speculative) [0..<applied txs])"
  define rest where "rest = (if applied txs < length txs
          then aborted_calls Speculative (applied txs) (txs ! applied txs)
          else [(Canonical, FinalizeBlock), (Canonical, EngineFinalize)])"
  have run: "calls (snd (Process config fc txs)) = ahead @ loop @ rest"
    unfolding Process_enabled_calls(1) [OF assms(1), where config = config and txs = txs,
      unfolded assms(2)] ahead_def loop_def rest_def
    by simp
  define s1 where "s1 = replay emits s ahead"
  define s2 where "s2 = replay emits s1 loop"
  have a: "buffer (txPrinter s1) = []" "flushed s1 = flushed s"
    "buffer_at_starts emits s ahead = []"
    unfolding s1_def ahead_def by (rule replay_ahead)+
  note l = replay_applied_all [OF a(1), of emits "[0..<applied txs]", folded loop_def s2_def]
  have r: "flushed (replay emits s2 rest) = flushed s2"
    "buffer_at_starts emits s2 rest
       = (if applied txs < length txs then [(applied txs, [])] else [])"
    using l unfolding rest_def by (simp_all add: replay_aborted replay_end)
  show "buffer_at_starts emits s (calls (snd (Process config fc txs)))
           = map (\<lambda>i. (i, [])) [0..<min (length txs) (Suc (applied txs))]"
    unfolding run buffer_at_starts_append
    using a l r
    unfolding started_upt
    by (simp add: s1_def [symmetric] s2_def [symmetric] del: upt_Suc)
  show "flushed (replay emits s (calls (snd (Process config fc txs))))
           = flushed s @ map (recorded emits) [0..<applied txs]"
    unfolding run replay_append
    using a l r
    by (simp add: s1_def [symmetric] s2_def [symmetric] del: upt_Suc)
qed

text \<open>
  C8, amended. With the firehose context enabled, \<open>Process\<close> creates one
  transaction-scoped speculative context per block, ahead of the transaction loop (only
  \<open>StartBlock\<close> and the DAO fork come before it), whatever the number of transactions.
  It wraps the reused \<open>TxSyncBuffer\<close>, reset at that point: whatever the buffer held,
  it is empty once the creation call of the run is performed. Every transaction-scoped
  call of the block is made on that one context. The buffer is empty at the
  \<open>StartTransaction\<close> of every transaction that starts, the applied ones and the one
  that aborts the block, and what the flush of an applied transaction hands over is
  what the calls of that transaction recorded, nothing of another transaction.
\<close>

theorem Process_one_speculative_context:
  assumes "Enabled fc" and "ref fc = Canonical"
  shows "filter (\<lambda>e. snd e = NewSpeculativeExecutionContextWithBuffer)
           (calls (snd (Process config fc txs)))
          = [(Speculative, NewSpeculativeExecutionContextWithBuffer)]
       \<and> takeWhile (\<lambda>e. snd e \<noteq> NewSpeculativeExecutionContextWithBuffer)
           (calls (snd (Process config fc txs)))
          = (Canonical, StartBlock) # map (Pair Canonical) (dao_calls config)
       \<and> buffer (txPrinter (replay emits s
           (takeWhile (\<lambda>e. snd e \<noteq> NewSpeculativeExecutionContextWithBuffer)
              (calls (snd (Process config fc txs)))
            @ [(Speculative, NewSpeculativeExecutionContextWithBuffer)]))) = []
       \<and> (\<forall>e \<in> set (calls (snd (Process config fc txs))).
             transaction_scoped (snd e) \<longrightarrow> fst e = Speculative)
       \<and> buffer_at_starts emits s (calls (snd (Process config fc txs)))
          = map (\<lambda>i. (i, [])) [0..<min (length txs) (Suc (applied txs))]
       \<and> flushed (replay emits s (calls (snd (Process config fc txs))))
          = flushed s @ map (recorded emits) [0..<applied txs]"
proof -
  note run = Process_enabled_calls(1) [OF assms(1), where config = config and txs = txs,
      unfolded assms(2)]
  have once: "filter (\<lambda>e. snd e = NewSpeculativeExecutionContextWithBuffer)
           (calls (snd (Process config fc txs)))
          = [(Speculative, NewSpeculativeExecutionContextWithBuffer)]"
    unfolding run
    by (simp add: creation_not_in_applied creation_not_in_aborted creation_not_in_dao
          del: upt_Suc)
  have ahead: "takeWhile (\<lambda>e. snd e \<noteq> NewSpeculativeExecutionContextWithBuffer)
           (calls (snd (Process config fc txs)))
          = (Canonical, StartBlock) # map (Pair Canonical) (dao_calls config)"
    unfolding run
    by (simp add: takeWhile_dao del: upt_Suc)
  have reset: "buffer (txPrinter (replay emits s
           (takeWhile (\<lambda>e. snd e \<noteq> NewSpeculativeExecutionContextWithBuffer)
              (calls (snd (Process config fc txs)))
            @ [(Speculative, NewSpeculativeExecutionContextWithBuffer)]))) = []"
    unfolding ahead using replay_ahead(1) [of emits s config] by simp
  have scoped: "\<forall>e \<in> set (calls (snd (Process config fc txs))).
             transaction_scoped (snd e) \<longrightarrow> fst e = Speculative"
  proof (intro ballI impI)
    fix e
    assume e: "e \<in> set (calls (snd (Process config fc txs)))" and t: "transaction_scoped (snd e)"
    from e have "e = (Canonical, StartBlock)
        \<or> e \<in> set (map (Pair Canonical) (dao_calls config))
        \<or> e = (Speculative, NewSpeculativeExecutionContextWithBuffer)
        \<or> e \<in> set (concat (map (applied_calls Canonical Speculative) [0..<applied txs]))
        \<or> e \<in> set (aborted_calls Speculative (applied txs) (txs ! applied txs))
        \<or> e = (Canonical, FinalizeBlock) \<or> e = (Canonical, EngineFinalize)"
      unfolding run by (auto simp del: upt_Suc split: if_splits)
    with t show "fst e = Speculative"
      using scoped_in_applied [of e "[0..<applied txs]"]
        scoped_in_aborted [of e "applied txs" "txs ! applied txs"]
        scoped_in_dao [of e Canonical config]
      by (elim disjE) (simp_all del: upt_Suc)
  qed
  note own = Process_replay [OF assms, of emits s config txs]
  from once ahead reset scoped own show ?thesis by blast
qed

lemma recorded_sample_0:
  "recorded sample_lines 0
     = ''FIRE begin 0'' @ [CHR 0x0A] @ ''FIRE call 0'' @ [CHR 0x0A]
       @ ''FIRE return 0'' @ [CHR 0x0A] @ ''FIRE end 0'' @ [CHR 0x0A]"
  by (simp add: recorded_def sample_lines_def firehose_line_def FormatUint.simps digit_def)

lemma applied_good_bad: "applied [good_tx, bad_tx] = 1"
  by (simp add: applied_Cons applied_Nil applies_good applies_bad)

theorem Process_one_speculative_context_witness:
  "Enabled canonical_context \<and> ref canonical_context = Canonical
   \<and> buffer (txPrinter leftover) = ''FIRE leftover''
   \<and> filter (\<lambda>e. snd e = NewSpeculativeExecutionContextWithBuffer)
        (calls (snd (Process plain_config canonical_context [good_tx, bad_tx])))
       = [(Speculative, NewSpeculativeExecutionContextWithBuffer)]
   \<and> takeWhile (\<lambda>e. snd e \<noteq> NewSpeculativeExecutionContextWithBuffer)
        (calls (snd (Process plain_config canonical_context [good_tx, bad_tx])))
       = [(Canonical, StartBlock)]
   \<and> buffer (txPrinter (replay sample_lines leftover
        [(Canonical, StartBlock), (Speculative, NewSpeculativeExecutionContextWithBuffer)])) = []
   \<and> buffer_at_starts sample_lines leftover
        (calls (snd (Process plain_config canonical_context [good_tx, bad_tx])))
       = [(0, []), (1, [])]
   \<and> flushed (replay sample_lines leftover
        (calls (snd (Process plain_config canonical_context [good_tx, bad_tx]))))
       = [''FIRE begin 0'' @ [CHR 0x0A] @ ''FIRE call 0'' @ [CHR 0x0A]
          @ ''FIRE return 0'' @ [CHR 0x0A] @ ''FIRE end 0'' @ [CHR 0x0A]]"
  using Process_one_speculative_context [OF canonical_context_simps,
          of plain_config "[good_tx, bad_tx]" sample_lines leftover]
  by (simp add: canonical_context_simps dao_calls_plain applied_good_bad recorded_sample_0
        leftover_def replay_Cons replay_Nil perform_canonical perform_creation)

text \<open>
  The run of two applied transactions, evaluated: the second starts right after the
  flush of the first, on the same context, and on an empty buffer.
\<close>

lemma two_transactions_run:
  "buffer_at_starts sample_lines leftover
     (calls (snd (Process plain_config canonical_context [good_tx, good_tx])))
   = [(0, []), (1, [])]"
  by code_simp

text \<open>
  With the firehose context disabled no speculative context is created: the
  transactions run on the context that \<open>Process\<close> was handed.
\<close>

lemma ApplyTransaction_no_creation:
  "filter (\<lambda>e. snd e = NewSpeculativeExecutionContextWithBuffer)
      (calls (snd (ApplyTransaction tc i tx st)))
     = filter (\<lambda>e. snd e = NewSpeculativeExecutionContextWithBuffer) (calls st)"
  by (simp add: ApplyTransaction_def Let_def calls_record_call split: option.splits)

lemma loop_creation_free:
  "filter (\<lambda>e. snd e = NewSpeculativeExecutionContextWithBuffer)
      (calls (snd (process_transactions fc tc i txs rs st)))
     = filter (\<lambda>e. snd e = NewSpeculativeExecutionContextWithBuffer) (calls st)"
proof (induction txs arbitrary: i rs st)
  case Nil
  show ?case by simp
next
  case (Cons tx txs)
  define st1 where "st1 = (if Enabled tc then record_call (ref tc) (StartTransaction i) st else st)"
  have f1: "filter (\<lambda>e. snd e = NewSpeculativeExecutionContextWithBuffer) (calls st1)
              = filter (\<lambda>e. snd e = NewSpeculativeExecutionContextWithBuffer) (calls st)"
    by (simp add: st1_def calls_record_call)
  obtain r st2 where ap: "ApplyTransaction tc i tx st1 = (r, st2)"
    by (cases "ApplyTransaction tc i tx st1")
  have f2: "filter (\<lambda>e. snd e = NewSpeculativeExecutionContextWithBuffer) (calls st2)
              = filter (\<lambda>e. snd e = NewSpeculativeExecutionContextWithBuffer) (calls st)"
    using ApplyTransaction_no_creation [of tc i tx st1] ap f1 by simp
  show ?case
  proof (cases r)
    case (Inl err)
    then have "process_transactions fc tc i (tx # txs) rs st = (Inl err, st2)"
      using ap by (simp add: st1_def Let_def)
    then show ?thesis using f2 by simp
  next
    case (Inr receipt)
    define st3 where "st3 = (if Enabled tc
                         then record_call (ref fc) (FlushTransaction i)
                                (record_call (ref tc) (EndTransaction i) st2)
                         else st2)"
    have f3: "filter (\<lambda>e. snd e = NewSpeculativeExecutionContextWithBuffer) (calls st3)
              = filter (\<lambda>e. snd e = NewSpeculativeExecutionContextWithBuffer) (calls st)"
      using f2 by (simp add: st3_def calls_record_call)
    have step: "process_transactions fc tc i (tx # txs) rs st
                 = process_transactions fc tc (i + 1) txs (rs @ [receipt]) st3"
      using ap Inr by (simp add: st1_def st3_def Let_def)
    show ?thesis
      unfolding step using Cons.IH [of "i + 1" "rs @ [receipt]" st3] f3 by simp
  qed
qed

lemma Process_disabled_no_speculative_context:
  assumes "\<not> Enabled fc"
  shows "filter (\<lambda>e. snd e = NewSpeculativeExecutionContextWithBuffer)
           (calls (snd (Process config fc txs))) = []"
proof -
  define st2 where "st2 = (if DAOForkSupport config \<and> DAOForkBlock config \<noteq> None
                    \<and> DAOForkBlock config = Some (BlockNumber config)
                 then record_call (ref fc) ApplyDAOHardFork \<lparr>calls = [], usedGas = 0\<rparr>
                 else \<lparr>calls = [], usedGas = 0\<rparr>)"
  have f2: "filter (\<lambda>e. snd e = NewSpeculativeExecutionContextWithBuffer) (calls st2) = []"
    by (simp add: st2_def calls_record_call)
  obtain r st4 where pt: "process_transactions fc fc 0 txs [] st2 = (r, st4)"
    by (cases "process_transactions fc fc 0 txs [] st2")
  from loop_creation_free [of fc fc 0 txs "[]" st2] pt f2
  have f4: "filter (\<lambda>e. snd e = NewSpeculativeExecutionContextWithBuffer) (calls st4) = []"
    by simp
  have P: "Process config fc txs =
     (case r of Inl err \<Rightarrow> (Inl err, st4)
      | Inr receipts \<Rightarrow>
          (let st5 = (if BlockProgressEnabled config
                      then record_call Sync FinalizeBlock st4 else st4);
               st6 = record_call (ref fc) EngineFinalize st5
           in (Inr (receipts, usedGas st6), st6)))"
    using assms pt
    by (cases "DAOForkSupport config \<and> DAOForkBlock config \<noteq> None
            \<and> DAOForkBlock config = Some (BlockNumber config)")
       (simp_all add: Process_def Let_def st2_def split: sum.splits)
  show ?thesis
    unfolding P using f4
    by (cases r) (simp_all add: Let_def calls_record_call)
qed

section \<open>Properties of the EVM call entry points\<close>

lemma nesting_append:
  "nesting d (xs @ ys) = (case nesting d xs of None \<Rightarrow> None | Some d' \<Rightarrow> nesting d' ys)"
  by (induction xs arbitrary: d) (auto split: nat.splits)

lemma well_nested_Nil: "well_nested []"
  by (simp add: well_nested_def)

lemma well_nested_append: "well_nested xs \<Longrightarrow> well_nested ys \<Longrightarrow> well_nested (xs @ ys)"
  by (simp add: well_nested_def nesting_append)

lemma well_nested_Cons_quiet:
  "\<not> is_start e \<Longrightarrow> \<not> is_terminal e \<Longrightarrow> well_nested (e # es) = well_nested es"
  by (simp add: well_nested_def)

lemma frame_terminals_skip:
  "nesting d xs = Some d' \<Longrightarrow> frame_terminals d (xs @ ys) = frame_terminals d' ys"
  by (induction xs arbitrary: d) (auto split: nat.splits if_splits)

lemma terminal_not_start: "is_terminal t \<Longrightarrow> \<not> is_start t"
  by (cases t) simp_all

lemma closes_terminal: "is_terminal t \<Longrightarrow> closes_frame [t]"
  by (simp add: closes_frame_def well_nested_Nil terminal_not_start)

lemma closes_append:
  assumes "well_nested inner" and "closes_frame rest"
  shows "closes_frame (inner @ rest)"
proof -
  from assms(2) have ne: "rest \<noteq> []" by (simp add: closes_frame_def)
  then have bl: "butlast (inner @ rest) = inner @ butlast rest"
    by (simp add: butlast_append)
  have "frame_terminals 0 (inner @ rest) = frame_terminals 0 rest"
    using assms(1) by (simp add: well_nested_def frame_terminals_skip)
  with assms ne bl show ?thesis
    by (simp add: closes_frame_def well_nested_append)
qed

lemma closes_Cons_quiet:
  assumes "\<not> is_start e" and "\<not> is_terminal e" and "closes_frame rest"
  shows "closes_frame (e # rest)"
proof -
  have "well_nested [e]" using assms(1,2) by (simp add: well_nested_def)
  from closes_append [OF this assms(3)] show ?thesis by simp
qed

lemma framed_Cons: "framed K (StartCall K # rest) = closes_frame rest"
  by (simp add: framed_def)

lemma well_nested_run_code:
  "well_nested (run_events (interpreter_Run evm)) \<Longrightarrow> well_nested (run_events (run_code evm))"
  by (simp add: run_code_def well_nested_Cons_quiet)

lemma well_nested_execute:
  assumes "well_nested (run_events (RunPrecompiledContract evm))"
    and "well_nested (run_events (interpreter_Run evm))"
  shows "well_nested (run_events (execute evm))"
  using assms by (simp add: execute_def well_nested_run_code)

lemma well_nested_Call_execute:
  assumes "well_nested (run_events (RunPrecompiledContract evm))"
    and "well_nested (run_events (interpreter_Run evm))"
  shows "well_nested (run_events (Call_execute evm gas))"
  using assms by (simp add: Call_execute_def well_nested_run_code well_nested_Cons_quiet well_nested_Nil)

lemma well_nested_append_iff: "well_nested xs \<Longrightarrow> well_nested (xs @ ys) = well_nested ys"
  by (simp add: well_nested_def nesting_append)

lemma finish_call_closes:
  assumes en: "firehoseEnabled evm" and pre: "well_nested pre"
  shows "closes_frame (tl (snd (finish_call evm (StartCall K # pre) r)))"
proof -
  have tail: "closes_frame (pre @ quiet @ [t])"
    if "is_terminal t" and "well_nested quiet" for quiet t
    using that pre by (intro closes_append closes_terminal)
  show ?thesis
  proof (cases "run_err r")
    case None
    then have "tl (snd (finish_call evm (StartCall K # pre) r))
                 = pre @ [] @ [EndCall (run_gas r) (run_ret r)]"
      using en by (simp add: finish_call_def Let_def on_def)
    then show ?thesis
      using tail [of "EndCall (run_gas r) (run_ret r)" "[]"]
      by (simp add: well_nested_Nil)
  next
    case (Some err)
    show ?thesis
    proof (cases "err = ErrExecutionReverted")
      case True
      with Some have "tl (snd (finish_call evm (StartCall K # pre) r))
          = pre @ [RecordCallFailed (run_gas r) err, RecordCallReverted]
              @ [EndCall (run_gas r) (run_ret r)]"
        using en by (simp add: finish_call_def Let_def on_def)
      then show ?thesis
        using tail [of "EndCall (run_gas r) (run_ret r)"
                       "[RecordCallFailed (run_gas r) err, RecordCallReverted]"]
        by (simp add: well_nested_Cons_quiet well_nested_Nil)
    next
      case False
      with Some have "tl (snd (finish_call evm (StartCall K # pre) r))
          = pre @ [RecordCallFailed (run_gas r) err,
                   RecordGasConsume (run_gas r) (run_gas r) FailedExecutionGasChangeReason]
              @ [EndCall 0 (run_ret r)]"
        using en by (simp add: finish_call_def Let_def on_def)
      then show ?thesis
        using tail [of "EndCall 0 (run_ret r)"
                       "[RecordCallFailed (run_gas r) err,
                         RecordGasConsume (run_gas r) (run_gas r) FailedExecutionGasChangeReason]"]
        by (simp add: well_nested_Cons_quiet well_nested_Nil)
    qed
  qed
qed

lemma finish_call_hd:
  "firehoseEnabled evm \<Longrightarrow> \<exists>rest. snd (finish_call evm (StartCall K # pre) r) = StartCall K # rest"
  by (simp add: finish_call_def Let_def on_def split: option.splits)

lemma finish_call_framed:
  assumes "firehoseEnabled evm" and "well_nested pre"
  shows "framed K (snd (finish_call evm (StartCall K # pre) r))"
proof -
  from finish_call_hd [OF assms(1), of K pre r]
  obtain rest where rest: "snd (finish_call evm (StartCall K # pre) r) = StartCall K # rest"
    by blast
  with finish_call_closes [OF assms, of K r] show ?thesis
    by (simp add: framed_Cons)
qed


lemmas closes_rules = closes_Cons_quiet closes_append closes_terminal

lemma guard_framed:
  "is_terminal t \<Longrightarrow> \<not> is_start p \<Longrightarrow> \<not> is_terminal p \<Longrightarrow> framed K [StartCall K, p, t]"
  by (simp add: framed_Cons closes_rules)

lemma Call_framed:
  assumes "firehoseEnabled evm"
    and "well_nested (run_events (RunPrecompiledContract evm))"
    and "well_nested (run_events (interpreter_Run evm))"
  shows "framed ''CALL'' (snd (Call evm caller addr input gas value))"
  using assms
  by (simp add: Call_def Let_def on_def guard_framed finish_call_framed
        well_nested_Call_execute well_nested_Cons_quiet well_nested_Nil well_nested_append_iff)

lemma CallCode_framed:
  assumes "firehoseEnabled evm"
    and "well_nested (run_events (RunPrecompiledContract evm))"
    and "well_nested (run_events (interpreter_Run evm))"
  shows "framed ''CALLCODE'' (snd (CallCode evm caller addr input gas value))"
  using assms
  by (simp add: CallCode_def Let_def on_def guard_framed finish_call_framed
        well_nested_execute well_nested_Cons_quiet well_nested_Nil well_nested_append_iff)

lemma DelegateCall_framed:
  assumes "firehoseEnabled evm"
    and "well_nested (run_events (RunPrecompiledContract evm))"
    and "well_nested (run_events (interpreter_Run evm))"
  shows "framed ''DELEGATE'' (snd (DelegateCall evm parent parent_value addr input gas))"
  using assms
  by (simp add: DelegateCall_def Let_def on_def guard_framed finish_call_framed
        well_nested_execute well_nested_Cons_quiet well_nested_Nil well_nested_append_iff)

lemma StaticCall_framed:
  assumes "firehoseEnabled evm"
    and "well_nested (run_events (RunPrecompiledContract evm))"
    and "well_nested (run_events (interpreter_Run evm))"
  shows "framed ''STATIC'' (snd (StaticCall evm caller addr input gas))"
  using assms
  by (simp add: StaticCall_def Let_def on_def guard_framed finish_call_framed
        well_nested_execute well_nested_Cons_quiet well_nested_Nil well_nested_append_iff)

lemma well_nested_quiet: "list_all quiet es \<Longrightarrow> well_nested es"
  by (induction es) (simp_all add: well_nested_Nil well_nested_Cons_quiet quiet_def)

lemma quiet_storing:
  "list_all quiet (if c then on evm [Handed a] @ (if d then on evm [Handed b] else []) else [])"
  by (simp add: on_def quiet_def)

lemma quiet_failing:
  "list_all quiet
     (case e3 of
        None \<Rightarrow> []
      | Some err \<Rightarrow>
          if h \<or> err \<noteq> ErrCodeStoreOutOfGas
          then on evm [RecordCallFailed g err]
               @ (if err \<noteq> ErrExecutionReverted then on evm [Handed u]
                  else on evm [RecordCallReverted])
          else [])"
  by (simp add: on_def quiet_def split: option.splits)

lemma create_deploy_framed:
  assumes "firehoseEnabled evm"
    and "well_nested (run_events (interpreter_Run evm))"
  shows "framed ''CREATE'' (snd (create_deploy evm caller gas value address'))"
proof -
  note wn = well_nested_run_code [OF assms(2)]
  have shape: "closes_frame
     (RecordCallParams ''CREATE'' caller address' value gas [] # Handed a1 # Handed a2
        # (eip @ Handed a3 # run_events (run_code evm) @ storing @ failing @ [EndCall g []]))"
    if "list_all quiet eip" "list_all quiet storing" "list_all quiet failing"
    for a1 a2 a3 eip storing failing g
  proof -
    have "closes_frame [EndCall g []]"
      by (simp add: closes_terminal)
    then have "closes_frame (failing @ [EndCall g []])"
      by (rule closes_append [OF well_nested_quiet [OF that(3)]])
    then have "closes_frame (storing @ failing @ [EndCall g []])"
      by (rule closes_append [OF well_nested_quiet [OF that(2)]])
    then have "closes_frame (run_events (run_code evm) @ storing @ failing @ [EndCall g []])"
      by (rule closes_append [OF wn])
    then have "closes_frame
        (Handed a3 # run_events (run_code evm) @ storing @ failing @ [EndCall g []])"
      by (rule closes_Cons_quiet [rotated 2]) simp_all
    then have "closes_frame
        (eip @ Handed a3 # run_events (run_code evm) @ storing @ failing @ [EndCall g []])"
      by (rule closes_append [OF well_nested_quiet [OF that(1)]])
    then have "closes_frame (Handed a2
        # eip @ Handed a3 # run_events (run_code evm) @ storing @ failing @ [EndCall g []])"
      by (rule closes_Cons_quiet [rotated 2]) simp_all
    then have "closes_frame (Handed a1 # Handed a2
        # eip @ Handed a3 # run_events (run_code evm) @ storing @ failing @ [EndCall g []])"
      by (rule closes_Cons_quiet [rotated 2]) simp_all
    then show ?thesis
      by (rule closes_Cons_quiet [rotated 2]) simp_all
  qed
  have eip: "list_all quiet (if IsEIP158 evm then [Handed ''StateDB.SetNonce''] else [])"
    by (simp add: quiet_def)
  show ?thesis using assms(1)
    apply (simp add: create_deploy_def on_def Let_def framed_Cons split del: if_split)
    apply (rule shape)
      apply (simp_all add: quiet_def on_def split: option.splits)
    done
qed


lemma create_framed:
  assumes "firehoseEnabled evm"
    and "well_nested (run_events (interpreter_Run evm))"
  shows "framed ''CREATE'' (snd (create evm caller gas value address'))"
  using assms
  by (simp add: create_def Let_def on_def guard_framed create_deploy_framed framed_Cons
        closes_rules)

text \<open>
  C2. With the firehose context enabled, and the interpreter and the precompiled
  contracts leaving the frames of their own nested calls closed, the trace of every
  execution of \<open>Call\<close>, \<open>CallCode\<close>, \<open>DelegateCall\<close>, \<open>StaticCall\<close> and \<open>create\<close>
  opens with the \<open>StartCall\<close> of its kind and ends with a terminal event
  (\<open>EndCall\<close> or \<open>EndFailedCall\<close>), everything in between is well nested, and that
  last event is the only terminal event of the frame: on every return path, the
  guards for the depth limit, the balance, the nonce and the address collision and
  the call to an account without code included.
\<close>

theorem entry_points_close_their_frame:
  assumes "firehoseEnabled evm"
    and "well_nested (run_events (RunPrecompiledContract evm))"
    and "well_nested (run_events (interpreter_Run evm))"
  shows "framed ''CALL'' (snd (Call evm caller addr input gas val))
       \<and> framed ''CALLCODE'' (snd (CallCode evm caller addr input gas val))
       \<and> framed ''DELEGATE'' (snd (DelegateCall evm caller parent_value addr input gas))
       \<and> framed ''STATIC'' (snd (StaticCall evm caller addr input gas))
       \<and> framed ''CREATE'' (snd (create evm caller gas val addr))"
  using Call_framed [OF assms] CallCode_framed [OF assms] DelegateCall_framed [OF assms]
    StaticCall_framed [OF assms] create_framed [OF assms(1,3)]
  by simp

lemma test_evm_enabled: "firehoseEnabled (test_evm err\<lparr>depth := d\<rparr>)"
  "firehoseEnabled (test_evm err\<lparr>CanTransfer := c\<rparr>)"
  "firehoseEnabled (test_evm err\<lparr>GetCode := code\<rparr>)"
  "firehoseEnabled (test_evm err\<lparr>addressNonce := n\<rparr>)"
  "firehoseEnabled (test_evm err)"
  by (simp_all add: test_evm_def)

lemma test_evm_nested:
  "well_nested (run_events (RunPrecompiledContract (test_evm err\<lparr>depth := d\<rparr>)))"
  "well_nested (run_events (interpreter_Run (test_evm err\<lparr>depth := d\<rparr>)))"
  "well_nested (run_events (RunPrecompiledContract (test_evm err\<lparr>CanTransfer := c\<rparr>)))"
  "well_nested (run_events (interpreter_Run (test_evm err\<lparr>CanTransfer := c\<rparr>)))"
  "well_nested (run_events (RunPrecompiledContract (test_evm err\<lparr>GetCode := code\<rparr>)))"
  "well_nested (run_events (interpreter_Run (test_evm err\<lparr>GetCode := code\<rparr>)))"
  "well_nested (run_events (RunPrecompiledContract (test_evm err\<lparr>addressNonce := n\<rparr>)))"
  "well_nested (run_events (interpreter_Run (test_evm err\<lparr>addressNonce := n\<rparr>)))"
  "well_nested (run_events (RunPrecompiledContract (test_evm err)))"
  "well_nested (run_events (interpreter_Run (test_evm err)))"
  by (simp_all add: test_evm_def failing_run_def well_nested_def)

lemma depth_exit_run:
  "snd (Call (test_evm ErrExecutionReverted\<lparr>depth := 1025\<rparr>) [1] [2] [3] 1000 0)
     = [StartCall ''CALL'', RecordCallParams ''CALL'' [1] [2] 0 1000 [3],
        EndFailedCall 1000 True ErrDepth]"
  by (simp add: Call_def test_evm_def on_def)

lemma balance_exit_run:
  "snd (CallCode (test_evm ErrExecutionReverted\<lparr>CanTransfer := False\<rparr>) [1] [2] [3] 1000 5)
     = [StartCall ''CALLCODE'', RecordCallParams ''CALLCODE'' [1] [2] 5 1000 [3],
        EndFailedCall 1000 True ErrInsufficientBalance]"
  by (simp add: CallCode_def test_evm_def on_def)

lemma no_code_run:
  "snd (Call (test_evm ErrExecutionReverted\<lparr>GetCode := []\<rparr>) [1] [2] [3] 1000 0)
     = [StartCall ''CALL'', RecordCallParams ''CALL'' [1] [2] 0 1000 [3],
        Handed ''Context.Transfer'', RecordCallWithoutCode, EndCall 1000 []]"
  by (simp add: Call_def Call_execute_def finish_call_def test_evm_def on_def Let_def)

lemma collision_run:
  "snd (create (test_evm ErrExecutionReverted\<lparr>addressNonce := 1\<rparr>) [1] 1000 0 [9])
     = [StartCall ''CREATE'', RecordCallParams ''CREATE'' [1] [9] 0 1000 [],
        Handed ''StateDB.SetNonce'', EndFailedCall 1000 False ErrContractAddressCollision]"
  by (simp add: create_def test_evm_def on_def)

theorem entry_points_close_their_frame_witness:
  "framed ''CALL''
     [StartCall ''CALL'', RecordCallParams ''CALL'' [1] [2] 0 1000 [3],
      EndFailedCall 1000 True ErrDepth]
   \<and> framed ''CALLCODE''
     [StartCall ''CALLCODE'', RecordCallParams ''CALLCODE'' [1] [2] 5 1000 [3],
      EndFailedCall 1000 True ErrInsufficientBalance]
   \<and> framed ''CALL''
     [StartCall ''CALL'', RecordCallParams ''CALL'' [1] [2] 0 1000 [3],
      Handed ''Context.Transfer'', RecordCallWithoutCode, EndCall 1000 []]
   \<and> framed ''CREATE''
     [StartCall ''CREATE'', RecordCallParams ''CREATE'' [1] [9] 0 1000 [],
      Handed ''StateDB.SetNonce'', EndFailedCall 1000 False ErrContractAddressCollision]"
  using
    entry_points_close_their_frame [where evm = "test_evm ErrExecutionReverted\<lparr>depth := 1025\<rparr>"
      and caller = "[1]" and addr = "[2]" and input = "[3]" and gas = 1000 and val = 0,
      OF test_evm_enabled(1) test_evm_nested(1,2)]
    entry_points_close_their_frame [where evm = "test_evm ErrExecutionReverted\<lparr>CanTransfer := False\<rparr>"
      and caller = "[1]" and addr = "[2]" and input = "[3]" and gas = 1000 and val = 5,
      OF test_evm_enabled(2) test_evm_nested(3,4)]
    entry_points_close_their_frame [where evm = "test_evm ErrExecutionReverted\<lparr>GetCode := []\<rparr>"
      and caller = "[1]" and addr = "[2]" and input = "[3]" and gas = 1000 and val = 0,
      OF test_evm_enabled(3) test_evm_nested(5,6)]
    entry_points_close_their_frame [where evm = "test_evm ErrExecutionReverted\<lparr>addressNonce := 1\<rparr>"
      and caller = "[1]" and addr = "[9]" and input = "[3]" and gas = 1000 and val = 0,
      OF test_evm_enabled(4) test_evm_nested(7,8)]
  by (simp add: depth_exit_run balance_exit_run no_code_run collision_run)









text \<open>
  \<open>create\<close> has its own end block. When the interpreter fails, a revert is marked
  and the remaining gas is returned, as in the call variants; any other error is
  handed to \<open>Contract.UseGas\<close> with all the remaining gas and
  \<open>FailedExecutionGasChangeReason\<close>, and the gas returned is what \<open>UseGas\<close> leaves.
  Before Homestead an \<open>ErrCodeStoreOutOfGas\<close> is returned without either.
\<close>

lemma create_deploy_failed_execution:
  assumes en: "firehoseEnabled evm"
    and err: "run_err (interpreter_Run evm) = Some err"
    and hs: "IsHomestead evm \<or> err \<noteq> ErrCodeStoreOutOfGas"
  shows "fst (create_deploy evm caller gas val addr)
           = (run_ret (interpreter_Run evm), addr,
              (if err = ErrExecutionReverted then run_gas (interpreter_Run evm)
               else snd (UseGas evm (run_gas (interpreter_Run evm)) (run_gas (interpreter_Run evm))
                          FailedExecutionGasChangeReason)),
              Some err)"
    and "drop (length (snd (create_deploy evm caller gas val addr)) - 3)
              (snd (create_deploy evm caller gas val addr))
           = (if err = ErrExecutionReverted
              then [RecordCallFailed (run_gas (interpreter_Run evm)) err, RecordCallReverted,
                    EndCall (run_gas (interpreter_Run evm)) []]
              else [RecordCallFailed (run_gas (interpreter_Run evm)) err,
                    Handed ''Contract.UseGas'',
                    EndCall (snd (UseGas evm (run_gas (interpreter_Run evm))
                                   (run_gas (interpreter_Run evm))
                                   FailedExecutionGasChangeReason)) []])"
proof -
  have rc: "run_err (run_code evm) = Some err" "run_gas (run_code evm) = run_gas (interpreter_Run evm)"
    "run_ret (run_code evm) = run_ret (interpreter_Run evm)"
    using err by (simp_all add: run_code_def)
  show "fst (create_deploy evm caller gas val addr)
           = (run_ret (interpreter_Run evm), addr,
              (if err = ErrExecutionReverted then run_gas (interpreter_Run evm)
               else snd (UseGas evm (run_gas (interpreter_Run evm)) (run_gas (interpreter_Run evm))
                          FailedExecutionGasChangeReason)),
              Some err)"
    using en hs by (auto simp: create_deploy_def Let_def rc)
  have tr: "\<exists>pre. snd (create_deploy evm caller gas val addr)
           = pre @ (if err = ErrExecutionReverted
              then [RecordCallFailed (run_gas (interpreter_Run evm)) err, RecordCallReverted,
                    EndCall (run_gas (interpreter_Run evm)) []]
              else [RecordCallFailed (run_gas (interpreter_Run evm)) err,
                    Handed ''Contract.UseGas'',
                    EndCall (snd (UseGas evm (run_gas (interpreter_Run evm))
                                   (run_gas (interpreter_Run evm))
                                   FailedExecutionGasChangeReason)) []])"
    using en hs by (auto simp: create_deploy_def Let_def rc on_def)
  then obtain pre where "snd (create_deploy evm caller gas val addr)
           = pre @ (if err = ErrExecutionReverted
              then [RecordCallFailed (run_gas (interpreter_Run evm)) err, RecordCallReverted,
                    EndCall (run_gas (interpreter_Run evm)) []]
              else [RecordCallFailed (run_gas (interpreter_Run evm)) err,
                    Handed ''Contract.UseGas'',
                    EndCall (snd (UseGas evm (run_gas (interpreter_Run evm))
                                   (run_gas (interpreter_Run evm))
                                   FailedExecutionGasChangeReason)) []])"
    by blast
  then show "drop (length (snd (create_deploy evm caller gas val addr)) - 3)
              (snd (create_deploy evm caller gas val addr))
           = (if err = ErrExecutionReverted
              then [RecordCallFailed (run_gas (interpreter_Run evm)) err, RecordCallReverted,
                    EndCall (run_gas (interpreter_Run evm)) []]
              else [RecordCallFailed (run_gas (interpreter_Run evm)) err,
                    Handed ''Contract.UseGas'',
                    EndCall (snd (UseGas evm (run_gas (interpreter_Run evm))
                                   (run_gas (interpreter_Run evm))
                                   FailedExecutionGasChangeReason)) []])"
    by simp
qed

end
